theory Spec2Isabelle
  imports Main
begin

section \<open>Python values used by the scheduling code\<close>

text \<open>
  Strings are ASCII text. A \<^verbatim>\<open>datetime\<close> is its wall-clock reading in microseconds since
  0001-01-01T00:00:00 together with its UTC offset in microseconds: \<open>None\<close> for a naive
  value (what \<^verbatim>\<open>datetime.utcnow()\<close> returns), \<open>Some off\<close> for an aware one (what
  \<^verbatim>\<open>fromisoformat\<close> returns for a string that ends in an offset such as
  \<^verbatim>\<open>+00:00\<close>).
\<close>

record datetime =
  wall :: int
  utcoffset :: "int option"

datatype error = TypeError | ValueError | OverflowError | HTTPException nat

definition DAY :: int where
  "DAY = 86400000000"

text \<open>\<^verbatim>\<open>date.max.toordinal()\<close> is 3652059 (9999-12-31): the first wall-clock reading
  that is no longer a datetime.\<close>

definition MAXWALL :: int where
  "MAXWALL = 3652059 * DAY"

definition timedelta_days :: "int \<Rightarrow> int" where
  "timedelta_days n = n * DAY"

text \<open>\<^verbatim>\<open>d + timedelta\<close>: the offset is kept, and a result outside
  0001-01-01 .. 9999-12-31 raises OverflowError.\<close>

definition dt_add :: "datetime \<Rightarrow> int \<Rightarrow> error + datetime" where
  "dt_add d delta =
     (let w = wall d + delta
      in if 0 \<le> w \<and> w < MAXWALL then Inr (d\<lparr>wall := w\<rparr>) else Inl OverflowError)"

text \<open>
  Ordering comparisons (\<^verbatim>\<open><\<close>, \<^verbatim>\<open><=\<close>): two naive values compare by wall clock,
  two aware values by the instant they denote, and a naive value against an aware one raises
  TypeError.
\<close>

definition dt_le :: "datetime \<Rightarrow> datetime \<Rightarrow> error + bool" where
  "dt_le a b =
     (case (utcoffset a, utcoffset b) of
        (None, None) \<Rightarrow> Inr (wall a \<le> wall b)
      | (Some oa, Some ob) \<Rightarrow> Inr (wall a - oa \<le> wall b - ob)
      | _ \<Rightarrow> Inl TypeError)"

text \<open>\<^verbatim>\<open>d.date()\<close> as a day number (day 0 is 0001-01-01): the date on the wall
  clock, whatever the offset.\<close>

definition date_of :: "datetime \<Rightarrow> int" where
  "date_of d = wall d div DAY"

text \<open>\<^verbatim>\<open>datetime.utcnow()\<close> is naive; \<open>clock\<close> is the reading of the UTC clock.\<close>

definition utcnow :: "int \<Rightarrow> datetime" where
  "utcnow clock = \<lparr>wall = clock, utcoffset = None\<rparr>"

subsection \<open>The proleptic Gregorian calendar of the datetime module\<close>

definition is_leap :: "int \<Rightarrow> bool" where
  "is_leap y = (y mod 4 = 0 \<and> (y mod 100 \<noteq> 0 \<or> y mod 400 = 0))"

definition days_before_year :: "int \<Rightarrow> int" where
  "days_before_year y = (let y1 = y - 1 in y1 * 365 + y1 div 4 - y1 div 100 + y1 div 400)"

definition month_lengths :: "int list" where
  "month_lengths = [31, 28, 31, 30, 31, 30, 31, 31, 30, 31, 30, 31]"

definition days_in_month :: "int \<Rightarrow> int \<Rightarrow> int" where
  "days_in_month y m = (if m = 2 \<and> is_leap y then 29 else month_lengths ! nat (m - 1))"

definition days_before_month :: "int \<Rightarrow> int \<Rightarrow> int" where
  "days_before_month y m =
     sum_list (take (nat (m - 1)) month_lengths) + (if 2 < m \<and> is_leap y then 1 else 0)"

definition ymd2ord :: "int \<Rightarrow> int \<Rightarrow> int \<Rightarrow> int" where
  "ymd2ord y m d = days_before_year y + days_before_month y m + d"

text \<open>\<^verbatim>\<open>datetime(y, m, d, hh, mm, ss, tzinfo=...)\<close>; a field out of range is a
  ValueError (\<open>None\<close>).\<close>

definition mk_datetime ::
  "int \<Rightarrow> int \<Rightarrow> int \<Rightarrow> int \<Rightarrow> int \<Rightarrow> int \<Rightarrow> int option \<Rightarrow> datetime option" where
  "mk_datetime y m d hh mm ss off =
     (if 1 \<le> y \<and> y \<le> 9999 \<and> 1 \<le> m \<and> m \<le> 12 \<and> 1 \<le> d \<and> d \<le> days_in_month y m
         \<and> 0 \<le> hh \<and> hh < 24 \<and> 0 \<le> mm \<and> mm < 60 \<and> 0 \<le> ss \<and> ss < 60
      then Some \<lparr>wall = (ymd2ord y m d - 1) * DAY + ((hh * 60 + mm) * 60 + ss) * 1000000,
                 utcoffset = off\<rparr>
      else None)"

text \<open>The inverse, \<^verbatim>\<open>_ord2ymd\<close>: year, month and day of an ordinal (1 is 0001-01-01).\<close>

definition ord2ymd :: "int \<Rightarrow> int \<times> int \<times> int" where
  "ord2ymd ordinal =
     (let n = ordinal - 1;
          n400 = n div 146097; n = n mod 146097;
          n100 = n div 36524; n = n mod 36524;
          n4 = n div 1461; n = n mod 1461;
          n1 = n div 365; n = n mod 365;
          year = n400 * 400 + 1 + n100 * 100 + n4 * 4 + n1
      in if n1 = 4 \<or> n100 = 4 then (year - 1, 12, 31)
         else
           let leapyear = (n1 = 3 \<and> (n4 \<noteq> 24 \<or> n100 = 3));
               month = (n + 50) div 32;
               preceding = sum_list (take (nat (month - 1)) month_lengths)
                           + (if 2 < month \<and> leapyear then 1 else 0)
           in if n < preceding
              then let month' = month - 1;
                       preceding' = preceding - (month_lengths ! nat (month' - 1)
                                                 + (if month' = 2 \<and> leapyear then 1 else 0))
                   in (year, month', n - preceding' + 1)
              else (year, month, n - preceding + 1))"

subsection \<open>\<^verbatim>\<open>isoformat()\<close> and \<^verbatim>\<open>str(int)\<close>\<close>

definition digit_char :: "nat \<Rightarrow> char" where
  "digit_char n = ''0123456789'' ! n"

fun str_nat :: "nat \<Rightarrow> string" where
  "str_nat n = (if n < 10 then [digit_char n] else str_nat (n div 10) @ [digit_char (n mod 10)])"

declare str_nat.simps [simp del]

text \<open>\<^verbatim>\<open>str(i)\<close> for an int.\<close>

definition py_str :: "int \<Rightarrow> string" where
  "py_str i = (if i < 0 then CHR ''-'' # str_nat (nat (- i)) else str_nat (nat i))"

text \<open>\<^verbatim>\<open>'%0<w>d' % i\<close> for \<open>0 \<le> i\<close>.\<close>

definition zero_pad :: "nat \<Rightarrow> int \<Rightarrow> string" where
  "zero_pad w i = (let s = str_nat (nat i) in replicate (w - length s) CHR ''0'' @ s)"

definition format_offset :: "int \<Rightarrow> string" where
  "format_offset off =
     (let a = \<bar>off\<bar>;
          hh = a div 3600000000; mm = a div 60000000 mod 60;
          ss = a div 1000000 mod 60; us = a mod 1000000
      in (if off < 0 then ''-'' else ''+'') @ zero_pad 2 hh @ '':'' @ zero_pad 2 mm
         @ (if ss \<noteq> 0 \<or> us \<noteq> 0 then '':'' @ zero_pad 2 ss else [])
         @ (if us \<noteq> 0 then ''.'' @ zero_pad 6 us else []))"

definition isoformat :: "datetime \<Rightarrow> string" where
  "isoformat d =
     (let (y, m, dd) = ord2ymd (wall d div DAY + 1);
          t = wall d mod DAY;
          hh = t div 3600000000; mm = t div 60000000 mod 60;
          ss = t div 1000000 mod 60; us = t mod 1000000
      in zero_pad 4 y @ ''-'' @ zero_pad 2 m @ ''-'' @ zero_pad 2 dd @ ''T''
         @ zero_pad 2 hh @ '':'' @ zero_pad 2 mm @ '':'' @ zero_pad 2 ss
         @ (if us \<noteq> 0 then ''.'' @ zero_pad 6 us else [])
         @ (case utcoffset d of None \<Rightarrow> [] | Some off \<Rightarrow> format_offset off))"

subsection \<open>\<^verbatim>\<open>datetime.fromisoformat\<close>\<close>

text \<open>
  The parser belongs to the Python runtime and its grammar differs between versions, so
  the functions below take it as a parameter \<open>p\<close>: \<open>p s = None\<close> when
  \<^verbatim>\<open>datetime.fromisoformat(s)\<close> raises. Every theorem holds for every parser.

  \<open>fromisoformat_core\<close> is the part of the grammar common to all versions that the
  examples need: a calendar date \<^verbatim>\<open>YYYY-MM-DD\<close>, optionally followed by a separator,
  a time \<^verbatim>\<open>HH:MM:SS\<close> and then optionally a UTC offset \<^verbatim>\<open>+HH:MM\<close> or
  \<^verbatim>\<open>-HH:MM\<close>.
\<close>

type_synonym parser = "string \<Rightarrow> datetime option"

definition digit_val :: "char \<Rightarrow> int option" where
  "digit_val c = (let n = of_char c :: nat in if 48 \<le> n \<and> n \<le> 57 then Some (int n - 48) else None)"

fun digits_val :: "string \<Rightarrow> int option" where
  "digits_val [] = None"
| "digits_val cs =
     fold (\<lambda>c acc. case (acc, digit_val c) of (Some a, Some v) \<Rightarrow> Some (a * 10 + v) | _ \<Rightarrow> None)
          cs (Some 0)"

definition parse_date :: "string \<Rightarrow> (int \<times> int \<times> int) option" where
  "parse_date s =
     (if length s = 10 \<and> s ! 4 = CHR ''-'' \<and> s ! 7 = CHR ''-''
      then (case (digits_val (take 4 s), digits_val (take 2 (drop 5 s)), digits_val (drop 8 s)) of
              (Some y, Some m, Some d) \<Rightarrow> Some (y, m, d)
            | _ \<Rightarrow> None)
      else None)"

definition parse_hms :: "string \<Rightarrow> (int \<times> int \<times> int) option" where
  "parse_hms s =
     (if length s = 8 \<and> s ! 2 = CHR '':'' \<and> s ! 5 = CHR '':''
      then (case (digits_val (take 2 s), digits_val (take 2 (drop 3 s)), digits_val (drop 6 s)) of
              (Some hh, Some mm, Some ss) \<Rightarrow> Some (hh, mm, ss)
            | _ \<Rightarrow> None)
      else None)"

definition parse_offset :: "string \<Rightarrow> int option option" where
  "parse_offset s =
     (if s = [] then Some None
      else if length s = 6 \<and> (s ! 0 = CHR ''+'' \<or> s ! 0 = CHR ''-'') \<and> s ! 3 = CHR '':''
      then (case (digits_val (take 2 (drop 1 s)), digits_val (drop 4 s)) of
              (Some hh, Some mm) \<Rightarrow>
                if hh < 24 \<and> mm < 60
                then Some (Some ((if s ! 0 = CHR ''-'' then - 1 else 1) * (hh * 60 + mm) * 60000000))
                else None
            | _ \<Rightarrow> None)
      else None)"

definition fromisoformat_core :: parser where
  "fromisoformat_core s =
     (case parse_date (take 10 s) of
        None \<Rightarrow> None
      | Some (y, m, d) \<Rightarrow>
          if length s = 10 then mk_datetime y m d 0 0 0 None
          else (case (parse_hms (take 8 (drop 11 s)), parse_offset (drop 19 s)) of
                  (Some (hh, mm, ss), Some off) \<Rightarrow> mk_datetime y m d hh mm ss off
                | _ \<Rightarrow> None))"

subsection \<open>Arguments that may be None, a string or a datetime\<close>

datatype pyarg = PNone | PStr string | PDatetime datetime

text \<open>Truth value: None and the empty string are false.\<close>

fun truthy :: "pyarg \<Rightarrow> bool" where
  "truthy PNone = False"
| "truthy (PStr s) = (s \<noteq> [])"
| "truthy (PDatetime d) = True"

text \<open>\<^verbatim>\<open>s.replace('Z', '+00:00')\<close> replaces every Z.\<close>

definition replace_Z :: "string \<Rightarrow> string" where
  "replace_Z s = concat (map (\<lambda>c. if c = CHR ''Z'' then ''+00:00'' else [c]) s)"

text \<open>
  \<^verbatim>\<open>if isinstance(x, str): x = datetime.fromisoformat(x.replace('Z', '+00:00'))\<close>
  inside \<^verbatim>\<open>try\<close>, \<open>None\<close> standing for the \<^verbatim>\<open>except\<close> branch. The callers
  test the truth value first, so None never reaches it.
\<close>

fun parse_if_str :: "parser \<Rightarrow> pyarg \<Rightarrow> datetime option" where
  "parse_if_str p (PStr s) = p (replace_Z s)"
| "parse_if_str p (PDatetime d) = Some d"
| "parse_if_str p PNone = None"

section \<open>scheduler.py\<close>

text \<open>\<^verbatim>\<open>calculate_next_pms_from_contract_date(contract_date, contract_type)\<close>\<close>

definition calculate_next_pms_from_contract_date :: "datetime \<Rightarrow> string \<Rightarrow> error + datetime" where
  "calculate_next_pms_from_contract_date contract_date contract_type =
     (if contract_type = ''hardware'' then dt_add contract_date (timedelta_days 90)
      else if contract_type = ''label'' then dt_add contract_date (timedelta_days 30)
      else dt_add contract_date (timedelta_days 30))"

text \<open>
  \<^verbatim>\<open>calculate_next_pms_schedule(contract_date, contract_type, current_schedule=None)\<close>.
  The result is \<open>Inr None\<close> where the source returns None, \<open>Inr (Some d)\<close> where it
  returns a date, and \<open>Inl e\<close> where an exception leaves the function.
\<close>

definition calculate_next_pms_schedule ::
  "parser \<Rightarrow> pyarg \<Rightarrow> string \<Rightarrow> pyarg \<Rightarrow> error + datetime option" where
  "calculate_next_pms_schedule p contract_date contract_type current_schedule =
     (if \<not> truthy contract_date then Inr None
      else case parse_if_str p contract_date of
        None \<Rightarrow> Inr None
      | Some cd \<Rightarrow>
          if \<not> truthy current_schedule
          then map_sum id Some (calculate_next_pms_from_contract_date cd contract_type)
          else case parse_if_str p current_schedule of
            None \<Rightarrow> map_sum id Some (calculate_next_pms_from_contract_date cd contract_type)
          | Some cs \<Rightarrow>
              if contract_type = ''hardware'' then map_sum id Some (dt_add cs (timedelta_days 90))
              else if contract_type = ''label'' then map_sum id Some (dt_add cs (timedelta_days 30))
              else map_sum id Some (dt_add cs (timedelta_days 30)))"


text \<open>The instant an aware datetime denotes; the wall clock itself for a naive one.\<close>

definition instant :: "datetime \<Rightarrow> int" where
  "instant d = (case utcoffset d of None \<Rightarrow> wall d | Some off \<Rightarrow> wall d - off)"




section \<open>The store\<close>

text \<open>
  The Supabase tables are lists of rows. A row keeps the columns the scheduling code
  reads or writes; descriptive columns that no decision depends on (model, serial, branch,
  po_number, service_report, sr_number and the like) are left out. The date columns the
  code parses with \<^verbatim>\<open>fromisoformat\<close> are strings, None when the column is
  null; \<open>created_at\<close> and \<open>updated_at\<close> are the clock readings the database
  holds. One request reads the clock once. Every query succeeds: the branches of the
  source that answer a failing database call have no counterpart here.
\<close>

record contract =
  cid :: string
  sq :: "string option"
  end_user :: string
  technical_specialist :: "string option"
  status :: string
  date_of_contract :: "string option"
  end_of_contract :: "string option"
  next_pms_schedule :: "string option"
  created_at :: int
  updated_at :: int

record service_event =
  event_id :: string
  contract_id :: string
  contract_type :: string
  service_date :: string
  service_type :: string
  description :: string
  technician :: "string option"
  event_status :: string

record user =
  uid :: string
  role :: string
  full_name :: string

record notification =
  user_id :: string
  title :: string
  message :: string
  notification_type :: string
  notified_contract_id :: string
  is_read :: bool

record db =
  hardware_contracts :: "contract list"
  label_contracts :: "contract list"
  service_history :: "service_event list"
  notifications :: "notification list"
  users :: "user list"

text \<open>\<^verbatim>\<open>.neq("status", "expired")\<close> and
  \<^verbatim>\<open>.update(...).eq("id", i)\<close>.\<close>

definition select_not_expired :: "contract list \<Rightarrow> contract list" where
  "select_not_expired t = filter (\<lambda>c. status c \<noteq> ''expired'') t"

definition update_where_id :: "string \<Rightarrow> (contract \<Rightarrow> contract) \<Rightarrow> contract list \<Rightarrow> contract list" where
  "update_where_id i f t = map (\<lambda>r. if cid r = i then f r else r) t"

text \<open>An optional string inside an f-string.\<close>

definition fmt_opt :: "string option \<Rightarrow> string" where
  "fmt_opt v = (case v of None \<Rightarrow> ''None'' | Some s \<Rightarrow> s)"

subsection \<open>\<^verbatim>\<open>check_upcoming_maintenance\<close>\<close>

text \<open>The contracts of both tables that are not expired, each with its contract type.\<close>

definition all_contracts :: "db \<Rightarrow> (contract \<times> string) list" where
  "all_contracts d =
     map (\<lambda>c. (c, ''hardware''))
       (filter (\<lambda>c. status c \<noteq> ''expired'') (select_not_expired (hardware_contracts d)))
     @ map (\<lambda>c. (c, ''label''))
       (filter (\<lambda>c. status c \<noteq> ''expired'') (select_not_expired (label_contracts d)))"

text \<open>The loop that collects \<^verbatim>\<open>upcoming_contracts\<close>; nothing in it is inside a
  \<^verbatim>\<open>try\<close> of its own, so a date that does not parse or does not compare ends it.\<close>

fun upcoming_loop :: "parser \<Rightarrow> datetime \<Rightarrow> (contract \<times> string) list \<Rightarrow> error + (contract \<times> string) list" where
  "upcoming_loop p upcoming_date [] = Inr []"
| "upcoming_loop p upcoming_date ((c, ct) # rest) =
     (case next_pms_schedule c of
        None \<Rightarrow> upcoming_loop p upcoming_date rest
      | Some s \<Rightarrow>
          if s = [] then upcoming_loop p upcoming_date rest
          else case p (replace_Z s) of
            None \<Rightarrow> Inl ValueError
          | Some next_maintenance \<Rightarrow>
              (case dt_le next_maintenance upcoming_date of
                 Inl e \<Rightarrow> Inl e
               | Inr due \<Rightarrow>
                   (case upcoming_loop p upcoming_date rest of
                      Inl e \<Rightarrow> Inl e
                    | Inr found \<Rightarrow> Inr (if due then (c, ct) # found else found))))"

definition upcoming_contracts :: "parser \<Rightarrow> int \<Rightarrow> db \<Rightarrow> error + (contract \<times> string) list" where
  "upcoming_contracts p clock d =
     (case dt_add (utcnow clock) (timedelta_days 7) of
        Inl e \<Rightarrow> Inl e
      | Inr upcoming_date \<Rightarrow> upcoming_loop p upcoming_date (all_contracts d))"

definition send_maintenance_notification :: "db \<Rightarrow> contract \<times> string \<Rightarrow> db" where
  "send_maintenance_notification d cc =
     (case cc of (c, ct) \<Rightarrow>
        d\<lparr>notifications := notifications d @
             map (\<lambda>u. \<lparr>user_id = uid u,
                        title = ''Upcoming Maintenance - '' @ fmt_opt (sq c),
                        message = ''Maintenance is due for '' @ ct @ '' contract '' @ fmt_opt (sq c)
                                  @ '' on '' @ take 10 (fmt_opt (next_pms_schedule c)),
                        notification_type = ''maintenance_reminder'',
                        notified_contract_id = cid c,
                        is_read = False\<rparr>)
               (filter (\<lambda>u. role u \<in> set [''technician'', ''admin'']) (users d))\<rparr>)"

text \<open>The whole job: an exception is logged and nothing is sent.\<close>

definition check_upcoming_maintenance :: "parser \<Rightarrow> int \<Rightarrow> db \<Rightarrow> db" where
  "check_upcoming_maintenance p clock d =
     (case upcoming_contracts p clock d of
        Inl e \<Rightarrow> d
      | Inr found \<Rightarrow> foldl send_maintenance_notification d found)"

subsection \<open>\<^verbatim>\<open>check_expired_contracts\<close>\<close>

text \<open>One of the two loops: \<open>rows\<close> is the result of the select, \<open>table\<close> the
  table the updates go to, \<open>count\<close> the number of contracts marked so far.\<close>

fun expire_loop :: "parser \<Rightarrow> int \<Rightarrow> contract list \<Rightarrow> contract list \<Rightarrow> nat \<Rightarrow> contract list \<times> nat" where
  "expire_loop p clock [] table count = (table, count)"
| "expire_loop p clock (c # rows) table count =
     (case end_of_contract c of
        None \<Rightarrow> expire_loop p clock rows table count
      | Some s \<Rightarrow>
          if s = [] then expire_loop p clock rows table count
          else case p (replace_Z s) of
            None \<Rightarrow> expire_loop p clock rows table count
          | Some end_date \<Rightarrow>
              if date_of end_date < date_of (utcnow clock)
              then expire_loop p clock rows
                     (update_where_id (cid c) (\<lambda>r. r\<lparr>status := ''expired'', updated_at := clock\<rparr>) table)
                     (Suc count)
              else expire_loop p clock rows table count)"

text \<open>The job returns nothing; the model returns the store and the two counts it logs.\<close>

definition check_expired_contracts :: "parser \<Rightarrow> int \<Rightarrow> db \<Rightarrow> db \<times> nat \<times> nat" where
  "check_expired_contracts p clock d =
     (let hw = expire_loop p clock (select_not_expired (hardware_contracts d)) (hardware_contracts d) 0;
          lb = expire_loop p clock (select_not_expired (label_contracts d)) (label_contracts d) 0
      in (d\<lparr>hardware_contracts := fst hw, label_contracts := fst lb\<rparr>, snd hw, snd lb))"

section \<open>routers/contracts.py\<close>

subsection \<open>\<^verbatim>\<open>int(s)\<close> and \<^verbatim>\<open>s.strip()\<close>\<close>

definition is_space :: "char \<Rightarrow> bool" where
  "is_space c = (let n = of_char c :: nat in (9 \<le> n \<and> n \<le> 13) \<or> (28 \<le> n \<and> n \<le> 32))"

definition py_strip :: "string \<Rightarrow> string" where
  "py_strip s = rev (dropWhile is_space (rev (dropWhile is_space s)))"

text \<open>Digits may be grouped by single underscores, as in \<^verbatim>\<open>int('1_000')\<close>.\<close>

fun grouped :: "string \<Rightarrow> bool" where
  "grouped [] = False"
| "grouped [c] = (digit_val c \<noteq> None)"
| "grouped (c # d # cs) =
     (digit_val c \<noteq> None \<and> (if d = CHR ''_'' then grouped cs else grouped (d # cs)))"

definition py_int :: "string \<Rightarrow> int option" where
  "py_int s =
     (let t = py_strip s;
          neg = (t \<noteq> [] \<and> hd t = CHR ''-'');
          body = (if t \<noteq> [] \<and> (hd t = CHR ''-'' \<or> hd t = CHR ''+'') then tl t else t)
      in if grouped body
         then map_option (\<lambda>v. if neg then - v else v) (digits_val (filter (\<lambda>c. c \<noteq> CHR ''_'') body))
         else None)"

subsection \<open>Sequence numbers\<close>

text \<open>\<^verbatim>\<open>_get_next_sq\<close>: the row created last, its SQ plus one.\<close>

definition get_next_sq :: "contract list \<Rightarrow> string" where
  "get_next_sq t =
     (case take 1 (sort_key (\<lambda>r. - created_at r) t) of
        [] \<Rightarrow> ''1''
      | last_row # _ \<Rightarrow>
          (case py_int (py_strip (case sq last_row of None \<Rightarrow> [] | Some v \<Rightarrow> v)) of
             Some n \<Rightarrow> py_str (n + 1)
           | None \<Rightarrow> ''1''))"

text \<open>\<^verbatim>\<open>resequence_hardware_sq\<close> and \<^verbatim>\<open>resequence_label_sq\<close> differ in the
  table only.\<close>

fun resequence_loop :: "(nat \<times> contract) list \<Rightarrow> contract list \<Rightarrow> contract list" where
  "resequence_loop [] table = table"
| "resequence_loop ((idx, r) # rest) table =
     resequence_loop rest (update_where_id (cid r) (\<lambda>x. x\<lparr>sq := Some (py_str (int idx))\<rparr>) table)"

definition resequence_sq :: "contract list \<Rightarrow> contract list \<times> nat" where
  "resequence_sq t =
     (let rows = sort_key created_at t
      in (resequence_loop (enumerate 1 rows) t, length rows))"

definition resequence_hardware_sq :: "db \<Rightarrow> db \<times> nat" where
  "resequence_hardware_sq d =
     (let r = resequence_sq (hardware_contracts d) in (d\<lparr>hardware_contracts := fst r\<rparr>, snd r))"

definition resequence_label_sq :: "db \<Rightarrow> db \<times> nat" where
  "resequence_label_sq d =
     (let r = resequence_sq (label_contracts d) in (d\<lparr>label_contracts := fst r\<rparr>, snd r))"

subsection \<open>Creating a contract\<close>

text \<open>The request body, \<^verbatim>\<open>HardwareContractCreate\<close> or \<^verbatim>\<open>LabelContractCreate\<close>.\<close>

record contract_create =
  new_sq :: "string option"
  new_end_user :: string
  new_technical_specialist :: string
  new_next_pms_schedule :: "datetime option"
  new_date_of_contract :: "datetime option"
  new_end_of_contract :: "datetime option"
  new_status :: string

text \<open>\<^verbatim>\<open>not (data.get("sq") and str(data.get("sq")).strip())\<close>\<close>

definition sq_blank :: "string option \<Rightarrow> bool" where
  "sq_blank v = (case v of None \<Rightarrow> True | Some s \<Rightarrow> s = [] \<or> py_strip s = [])"

text \<open>
  The two create endpoints differ in the table and the contract type. \<open>new_id\<close> is the
  id the database gives the row. An exception in the body becomes HTTP 500.
\<close>

definition create_contract ::
  "string \<Rightarrow> int \<Rightarrow> string \<Rightarrow> contract_create \<Rightarrow> contract list \<Rightarrow> error + contract \<times> contract list" where
  "create_contract ct clock new_id data table =
     (let date_of_contract' = (case new_date_of_contract data of Some d \<Rightarrow> d | None \<Rightarrow> utcnow clock);
          sq' = (if sq_blank (new_sq data) then Some (get_next_sq table) else new_sq data);
          next_pms = (case new_next_pms_schedule data of
                        Some d \<Rightarrow> Inr d
                      | None \<Rightarrow> calculate_next_pms_from_contract_date date_of_contract' ct)
      in case next_pms of
           Inl e \<Rightarrow> Inl (HTTPException 500)
         | Inr next_pms_schedule' \<Rightarrow>
             let row = \<lparr>cid = new_id,
                        sq = sq',
                        end_user = new_end_user data,
                        technical_specialist = Some (new_technical_specialist data),
                        status = (if new_status data = [] then ''active'' else new_status data),
                        date_of_contract = Some (isoformat date_of_contract'),
                        end_of_contract = Some (isoformat (case new_end_of_contract data of
                                                            Some d \<Rightarrow> d | None \<Rightarrow> utcnow clock)),
                        next_pms_schedule = Some (isoformat next_pms_schedule'),
                        created_at = clock,
                        updated_at = clock\<rparr>
             in Inr (row, table @ [row]))"

definition create_hardware_contract :: "int \<Rightarrow> string \<Rightarrow> contract_create \<Rightarrow> db \<Rightarrow> (error + contract) \<times> db" where
  "create_hardware_contract clock new_id data d =
     (case create_contract ''hardware'' clock new_id data (hardware_contracts d) of
        Inl e \<Rightarrow> (Inl e, d)
      | Inr (row, t) \<Rightarrow> (Inr row, d\<lparr>hardware_contracts := t\<rparr>))"

definition create_label_contract :: "int \<Rightarrow> string \<Rightarrow> contract_create \<Rightarrow> db \<Rightarrow> (error + contract) \<times> db" where
  "create_label_contract clock new_id data d =
     (case create_contract ''label'' clock new_id data (label_contracts d) of
        Inl e \<Rightarrow> (Inl e, d)
      | Inr (row, t) \<Rightarrow> (Inr row, d\<lparr>label_contracts := t\<rparr>))"

subsection \<open>Completing a PMS visit\<close>

text \<open>The JSON answer of the complete-pms endpoints.\<close>

record completion =
  answer :: string
  service_history_id :: string
  answer_next_pms_schedule :: string

text \<open>An optional string used as a condition: None and the empty string are false.\<close>

definition given :: "string option \<Rightarrow> bool" where
  "given v = (case v of None \<Rightarrow> False | Some s \<Rightarrow> s \<noteq> [])"

text \<open>\<^verbatim>\<open>datetime.fromisoformat(completion_date)\<close> when a date is supplied and
  parses, the clock otherwise.\<close>

definition completion_datetime :: "parser \<Rightarrow> int \<Rightarrow> string option \<Rightarrow> datetime" where
  "completion_datetime p clock completion_date =
     (case completion_date of
        None \<Rightarrow> utcnow clock
      | Some s \<Rightarrow>
          if s = [] then utcnow clock
          else case p s of Some d \<Rightarrow> d | None \<Rightarrow> utcnow clock)"

text \<open>
  \<^verbatim>\<open>complete_hardware_pms\<close> and \<^verbatim>\<open>complete_label_pms\<close> differ in the table,
  the contract type written to the history and the number of days (90 and 30).
  \<open>new_id\<close> is the id the database gives the history row.
\<close>

definition complete_pms ::
  "string \<Rightarrow> int \<Rightarrow> parser \<Rightarrow> int \<Rightarrow> string \<Rightarrow> string option \<Rightarrow> string option \<Rightarrow> user \<Rightarrow> string
   \<Rightarrow> contract list \<Rightarrow> service_event list
   \<Rightarrow> (error + completion) \<times> contract list \<times> service_event list" where
  "complete_pms ct days p clock new_id technician' completion_date current_user contract_id' table history =
     (case filter (\<lambda>r. cid r = contract_id') table of
        [] \<Rightarrow> (Inl (HTTPException 404), table, history)
      | c # _ \<Rightarrow>
          let completed = completion_datetime p clock completion_date;
              technician_name = (if given technician' then technician'
                                 else if full_name current_user \<noteq> [] then Some (full_name current_user)
                                 else technical_specialist c);
              event = \<lparr>event_id = new_id,
                        contract_id = contract_id',
                        contract_type = ct,
                        service_date = isoformat completed,
                        service_type = ''PMS'',
                        description = ''PMS completed for '' @ fmt_opt (sq c) @ '' - '' @ end_user c,
                        technician = technician_name,
                        event_status = ''completed''\<rparr>;
              history' = history @ [event]
          in case dt_add completed (timedelta_days days) of
               Inl e \<Rightarrow> (Inl (HTTPException 500), table, history')
             | Inr next_pms \<Rightarrow>
                 (Inr \<lparr>answer = ''PMS completed successfully'',
                       service_history_id = event_id event,
                       answer_next_pms_schedule = isoformat next_pms\<rparr>,
                  update_where_id contract_id'
                    (\<lambda>r. r\<lparr>next_pms_schedule := Some (isoformat next_pms), updated_at := clock\<rparr>) table,
                  history'))"

definition complete_hardware_pms ::
  "parser \<Rightarrow> int \<Rightarrow> string \<Rightarrow> string option \<Rightarrow> string option \<Rightarrow> user \<Rightarrow> string \<Rightarrow> db
   \<Rightarrow> (error + completion) \<times> db" where
  "complete_hardware_pms p clock new_id technician' completion_date current_user contract_id' d =
     (case complete_pms ''hardware'' 90 p clock new_id technician' completion_date current_user
             contract_id' (hardware_contracts d) (service_history d) of
        (res, t, h) \<Rightarrow> (res, d\<lparr>hardware_contracts := t, service_history := h\<rparr>))"

definition complete_label_pms ::
  "parser \<Rightarrow> int \<Rightarrow> string \<Rightarrow> string option \<Rightarrow> string option \<Rightarrow> user \<Rightarrow> string \<Rightarrow> db
   \<Rightarrow> (error + completion) \<times> db" where
  "complete_label_pms p clock new_id technician' completion_date current_user contract_id' d =
     (case complete_pms ''label'' 30 p clock new_id technician' completion_date current_user
             contract_id' (label_contracts d) (service_history d) of
        (res, t, h) \<Rightarrow> (res, d\<lparr>label_contracts := t, service_history := h\<rparr>))"

section \<open>Sample data\<close>

text \<open>A small store for the examples: one label contract due on 2024-01-01, one hardware
  contract, one technician.\<close>

definition sample_user :: user where
  "sample_user = \<lparr>uid = ''u-1'', role = ''technician'', full_name = ''Bo''\<rparr>"

definition sample_label :: contract where
  "sample_label =
     \<lparr>cid = ''c-1'', sq = Some ''1'', end_user = ''Acme'', technical_specialist = Some ''Ana'',
      status = ''active'', date_of_contract = Some ''2023-12-02T00:00:00'',
      end_of_contract = Some ''2024-12-01T00:00:00'', next_pms_schedule = Some ''2024-01-01'',
      created_at = 63837072000000000, updated_at = 63837072000000000\<rparr>"

definition sample_hardware :: contract where
  "sample_hardware =
     \<lparr>cid = ''c-2'', sq = Some ''1'', end_user = ''Borealis'', technical_specialist = None,
      status = ''active'', date_of_contract = Some ''2023-10-03T00:00:00'',
      end_of_contract = Some ''2024-10-02T00:00:00'', next_pms_schedule = Some ''2024-01-01T00:00:00'',
      created_at = 63831888000000000, updated_at = 63831888000000000\<rparr>"

definition sample_db :: db where
  "sample_db = \<lparr>hardware_contracts = [sample_hardware], label_contracts = [sample_label], service_history = [],
                 notifications = [], users = [sample_user]\<rparr>"

text \<open>Two hardware contracts for the expiry scan run at 2024-11-01T09:00:00: one ends
  earlier the same day, the other late on the day before.\<close>

definition sample_ending :: "contract list" where
  "sample_ending =
     [sample_hardware\<lparr>cid := ''c-8'', end_of_contract := Some ''2024-11-01T08:00:00''\<rparr>,
      sample_hardware\<lparr>cid := ''c-9'', end_of_contract := Some ''2024-10-31T23:30:00''\<rparr>]"

text \<open>The same store with the due date of the hardware contract as a timestamp with a UTC
  offset, five days ahead of the sample clock reading 2024-01-01T09:00:00.\<close>

definition sample_db_aware :: db where
  "sample_db_aware =
     sample_db\<lparr>hardware_contracts :=
       [sample_hardware\<lparr>next_pms_schedule := Some ''2024-01-05T00:00:00+00:00''\<rparr>]\<rparr>"

text \<open>A hardware table whose SQs have gaps and do not follow the creation order.\<close>

definition sample_gapped :: "contract list" where
  "sample_gapped =
     [sample_hardware\<lparr>cid := ''c-7'', sq := Some ''7'', created_at := 63831888000000003\<rparr>,
      sample_hardware\<lparr>cid := ''c-2'', sq := Some ''2'', created_at := 63831888000000001\<rparr>,
      sample_hardware\<lparr>cid := ''c-4'', sq := Some ''4'', created_at := 63831888000000002\<rparr>]"

text \<open>
  A hardware table where an older contract carries a higher SQ than the newest one, as
  after a manual SQ on creation.
\<close>

definition sample_manual :: "contract list" where
  "sample_manual =
     [sample_hardware\<lparr>cid := ''c-5'', sq := Some ''5'', created_at := 63831888000000001\<rparr>,
      sample_hardware\<lparr>cid := ''c-6'', sq := Some ''2'', created_at := 63831888000000002\<rparr>]"

text \<open>A creation request that leaves the SQ and the next PMS date to the server.\<close>

definition sample_request :: contract_create where
  "sample_request =
     \<lparr>new_sq = None, new_end_user = ''Cobalt'', new_technical_specialist = ''Ana'',
      new_next_pms_schedule = None,
      new_date_of_contract = Some \<lparr>wall = 63839664000000000, utcoffset = None\<rparr>,
      new_end_of_contract = Some \<lparr>wall = 63871200000000000, utcoffset = None\<rparr>,
      new_status = ''active''\<rparr>"

section \<open>Specification-side notions\<close>

text \<open>The datetime \<open>delta\<close> microseconds after \<open>d\<close> on the same wall clock.\<close>

definition plus_wall :: "datetime \<Rightarrow> int \<Rightarrow> datetime" where
  "plus_wall d delta = d\<lparr>wall := wall d + delta\<rparr>"



text \<open>
  The expiry rule in the words of the specification. Today begins at the last midnight at
  or before the clock reading (a day has 86400000000 microseconds). A contract is past its
  end when its end date is present, parses, and falls on a calendar day before today, that
  is, reads earlier than the midnight at which today began: neither the time of day of the
  end date nor that of the clock decides anything else. It is due to expire when moreover
  it is not expired yet; expiring a row sets its status (and the update stamp).
\<close>

definition start_of_day :: "int \<Rightarrow> int" where
  "start_of_day clock = clock - clock mod 86400000000"

definition past_end :: "parser \<Rightarrow> int \<Rightarrow> contract \<Rightarrow> bool" where
  "past_end p clock c =
     (case end_of_contract c of
        None \<Rightarrow> False
      | Some s \<Rightarrow> s \<noteq> [] \<and>
          (case p (replace_Z s) of
             None \<Rightarrow> False
           | Some end_date \<Rightarrow> wall end_date < start_of_day clock))"

definition due_to_expire :: "parser \<Rightarrow> int \<Rightarrow> contract \<Rightarrow> bool" where
  "due_to_expire p clock c = (status c \<noteq> ''expired'' \<and> past_end p clock c)"

definition expire_row :: "parser \<Rightarrow> int \<Rightarrow> contract \<Rightarrow> contract" where
  "expire_row p clock c =
     (if due_to_expire p clock c then c\<lparr>status := ''expired'', updated_at := clock\<rparr> else c)"

text \<open>
  The due-soon rule in the words of the specification: the next schedule is present, parses
  and is not after the end of the window. A stored schedule is naive when it is absent or
  parses to a datetime without offset.
\<close>

definition schedule_due :: "parser \<Rightarrow> datetime \<Rightarrow> contract \<Rightarrow> bool" where
  "schedule_due p upcoming_date c =
     (case next_pms_schedule c of
        None \<Rightarrow> False
      | Some s \<Rightarrow> s \<noteq> [] \<and>
          (case p (replace_Z s) of
             None \<Rightarrow> False
           | Some d \<Rightarrow> instant d \<le> instant upcoming_date))"

definition schedule_naive :: "parser \<Rightarrow> contract \<Rightarrow> bool" where
  "schedule_naive p c =
     (case next_pms_schedule c of
        None \<Rightarrow> True
      | Some s \<Rightarrow> s = [] \<or>
          (case p (replace_Z s) of
             None \<Rightarrow> False
           | Some d \<Rightarrow> utcoffset d = None))"

text \<open>The number a stored SQ stands for, as \<^verbatim>\<open>int\<close> reads it.\<close>

definition sq_number :: "contract \<Rightarrow> int option" where
  "sq_number r = (case sq r of None \<Rightarrow> None | Some s \<Rightarrow> py_int s)"

text \<open>Notions used in the proofs: a decimal digit that is neither blank, sign nor
  underscore; one step of reading a decimal; a row renumbered from a table of ids.\<close>

definition plain_digit :: "char \<Rightarrow> bool" where
  "plain_digit c = (digit_val c \<noteq> None \<and> \<not> is_space c \<and> c \<noteq> CHR ''_'' \<and> c \<noteq> CHR ''-'' \<and> c \<noteq> CHR ''+'')"

definition digit_step :: "char \<Rightarrow> int option \<Rightarrow> int option" where
  "digit_step = (\<lambda>c acc. case (acc, digit_val c) of (Some a, Some v) \<Rightarrow> Some (a * 10 + v) | _ \<Rightarrow> None)"

definition numbered :: "(string \<times> nat) list \<Rightarrow> contract \<Rightarrow> contract" where
  "numbered m r = (case map_of m (cid r) of None \<Rightarrow> r | Some idx \<Rightarrow> r\<lparr>sq := Some (py_str (int idx))\<rparr>)"

text \<open>
  The SQs of a table are numbers that do not decrease with the creation time.
\<close>

definition sq_follows_creation :: "contract list \<Rightarrow> bool" where
  "sq_follows_creation t =
     (\<forall>r1 \<in> set t. \<forall>r2 \<in> set t. created_at r1 \<le> created_at r2 \<longrightarrow>
        (\<exists>n1 n2. sq_number r1 = Some n1 \<and> sq_number r2 = Some n2 \<and> n1 \<le> n2))"

section \<open>Date arithmetic\<close>

lemma dt_add_in_range:
  "0 \<le> wall d + delta \<Longrightarrow> wall d + delta < MAXWALL \<Longrightarrow>
   dt_add d delta = Inr (d\<lparr>wall := wall d + delta\<rparr>)"
  by (simp add: dt_add_def)

text \<open>
  C3. The next due date computed from the anchor is the anchor plus 90 days for a
  hardware contract and the anchor plus 30 days for a label contract and for every other
  contract type; whenever that date is a representable datetime it is returned, with the
  time of day and the offset of the anchor.
\<close>

theorem next_pms_from_contract_date_cadence:
  "calculate_next_pms_from_contract_date d ''hardware'' = dt_add d (timedelta_days 90)
   \<and> calculate_next_pms_from_contract_date d ''label'' = dt_add d (timedelta_days 30)
   \<and> (ct \<noteq> ''hardware'' \<and> ct \<noteq> ''label'' \<longrightarrow>
        calculate_next_pms_from_contract_date d ct = dt_add d (timedelta_days 30))
   \<and> (0 \<le> wall d \<and> wall d + 90 * DAY < MAXWALL \<longrightarrow>
        calculate_next_pms_from_contract_date d ''hardware'' = Inr (d\<lparr>wall := wall d + 90 * DAY\<rparr>)
        \<and> calculate_next_pms_from_contract_date d ''label'' = Inr (d\<lparr>wall := wall d + 30 * DAY\<rparr>)
        \<and> (ct \<noteq> ''hardware'' \<and> ct \<noteq> ''label'' \<longrightarrow>
             calculate_next_pms_from_contract_date d ct = Inr (d\<lparr>wall := wall d + 30 * DAY\<rparr>)))"
  by (simp add: calculate_next_pms_from_contract_date_def dt_add_def timedelta_days_def DAY_def MAXWALL_def)

theorem next_pms_from_contract_date_cadence_witness:
  "calculate_next_pms_from_contract_date \<lparr>wall = 0, utcoffset = None\<rparr> ''hardware''
     = Inr \<lparr>wall = 90 * DAY, utcoffset = None\<rparr>
   \<and> calculate_next_pms_from_contract_date \<lparr>wall = 0, utcoffset = None\<rparr> ''label''
     = Inr \<lparr>wall = 30 * DAY, utcoffset = None\<rparr>
   \<and> calculate_next_pms_from_contract_date \<lparr>wall = 0, utcoffset = None\<rparr> ''repair''
     = Inr \<lparr>wall = 30 * DAY, utcoffset = None\<rparr>"
  using next_pms_from_contract_date_cadence [of "\<lparr>wall = 0, utcoffset = None\<rparr>" "''repair''"]
  unfolding DAY_def MAXWALL_def by auto

section \<open>The schedule generator\<close>


lemma le_div_iff_mult_le:
  fixes c :: int
  assumes "0 < c"
  shows "k \<le> d div c \<longleftrightarrow> k * c \<le> d"
proof
  assume "k \<le> d div c"
  with assms have "k * c \<le> (d div c) * c" by simp
  also have "\<dots> \<le> d"
    using assms by (metis add.commute le_add_same_cancel2 mult.commute mult_div_mod_eq pos_mod_sign)
  finally show "k * c \<le> d" .
next
  assume "k * c \<le> d"
  then have "(k * c) div c \<le> d div c" using assms by (rule zdiv_mono1)
  with assms show "k \<le> d div c" by simp
qed




lemma instant_plus_wall [simp]: "instant (plus_wall d x) = instant d + x"
  by (simp add: instant_def plus_wall_def split: option.splits)

lemma utcoffset_plus_wall [simp]: "utcoffset (plus_wall d x) = utcoffset d"
  by (simp add: plus_wall_def)


lemma plus_wall_plus_wall [simp]: "plus_wall (plus_wall d x) y = plus_wall d (x + y)"
  by (simp add: plus_wall_def)

lemma dt_le_same_awareness:
  "(utcoffset a = None) = (utcoffset b = None) \<Longrightarrow> dt_le a b = Inr (instant a \<le> instant b)"
  by (auto simp: dt_le_def instant_def split: option.splits)

lemma dt_le_mixed:
  "(utcoffset a = None) \<noteq> (utcoffset b = None) \<Longrightarrow> dt_le a b = Inl TypeError"
  by (auto simp: dt_le_def split: option.splits)

lemma dt_add_plus_wall:
  "0 \<le> wall d + x \<Longrightarrow> wall d + x < MAXWALL \<Longrightarrow> dt_add d x = Inr (plus_wall d x)"
  by (simp add: dt_add_def plus_wall_def)













section \<open>Next due date from a stored schedule\<close>

text \<open>
  C7 (as amended). When the anchor date is absent (None or the empty string) or does not
  parse, \<open>calculate_next_pms_schedule\<close> returns None: no exception is raised, and no
  date, zero or default, is returned in its place.
\<close>

theorem calculate_next_pms_schedule_no_anchor:
  "\<not> truthy anchor \<or> parse_if_str p anchor = None \<Longrightarrow>
   calculate_next_pms_schedule p anchor ct current_schedule = Inr None"
  by (auto simp: calculate_next_pms_schedule_def)

theorem calculate_next_pms_schedule_no_anchor_witness:
  "calculate_next_pms_schedule fromisoformat_core PNone ''label'' (PStr ''2024-01-01'') = Inr None
   \<and> calculate_next_pms_schedule fromisoformat_core (PStr ''soon'') ''label'' PNone = Inr None"
proof -
  have "parse_if_str fromisoformat_core (PStr ''soon'') = None"
    by code_simp
  then show ?thesis
    using calculate_next_pms_schedule_no_anchor
            [of PNone fromisoformat_core "''label''" "PStr ''2024-01-01''"]
          calculate_next_pms_schedule_no_anchor
            [of "PStr ''soon''" fromisoformat_core "''label''" PNone]
    by simp
qed

text \<open>The call does not fail with an error: it returns normally, with the value None.\<close>

theorem calculate_next_pms_schedule_returns_none:
  "\<not> isl (calculate_next_pms_schedule fromisoformat_core PNone ''hardware'' PNone)
   \<and> calculate_next_pms_schedule fromisoformat_core PNone ''hardware'' PNone = Inr None"
  by (simp add: calculate_next_pms_schedule_def)

section \<open>Completion of a visit\<close>

lemma complete_pms_not_found:
  assumes "\<forall>r \<in> set table. cid r \<noteq> i"
  shows "complete_pms ct days p clock nid tech cdate u i table history
           = (Inl (HTTPException 404), table, history)"
proof -
  from assms have "filter (\<lambda>r. cid r = i) table = []"
    by (simp add: filter_empty_conv)
  then show ?thesis by (simp add: complete_pms_def)
qed


lemma complete_pms_found:
  assumes "c \<in> set table" "cid c = i"
    and "dt_add (completion_datetime p clock cdate) (timedelta_days days) = Inr next"
  shows "\<exists>res t' h'. complete_pms ct days p clock nid tech cdate u i table history = (Inr res, t', h')"
proof -
  from assms(1,2) have "c \<in> set (filter (\<lambda>r. cid r = i) table)" by simp
  then obtain c' cs where "filter (\<lambda>r. cid r = i) table = c' # cs"
    by (cases "filter (\<lambda>r. cid r = i) table") auto
  with assms(3) show ?thesis by (simp add: complete_pms_def Let_def)
qed

lemma update_where_id_set:
  "r' \<in> set (update_where_id i f t) \<Longrightarrow> \<exists>r \<in> set t. r' = (if cid r = i then f r else r)"
  by (auto simp: update_where_id_def)

lemma completion_datetime_fallback:
  "cdate = None \<or> cdate = Some [] \<or> (\<exists>s. cdate = Some s \<and> p s = None)
   \<Longrightarrow> completion_datetime p clock cdate = utcnow clock"
  by (auto simp: completion_datetime_def)

lemma db_same [simp]: "d\<lparr>hardware_contracts := hardware_contracts d, service_history := service_history d\<rparr> = d"
  "d\<lparr>label_contracts := label_contracts d, service_history := service_history d\<rparr> = d"
  by simp_all

text \<open>
  C6. Completing a PMS visit for a contract id that is not in the table fails with
  HTTP 404 (not found) and leaves the whole store as it was: no service event is added and
  no contract changes.
\<close>

theorem complete_pms_unknown_contract:
  "((\<forall>r \<in> set (hardware_contracts d). cid r \<noteq> i) \<longrightarrow>
      complete_hardware_pms p clock nid tech cdate u i d = (Inl (HTTPException 404), d))
   \<and> ((\<forall>r \<in> set (label_contracts d). cid r \<noteq> i) \<longrightarrow>
      complete_label_pms p clock nid tech cdate u i d = (Inl (HTTPException 404), d))"
  by (simp add: complete_hardware_pms_def complete_label_pms_def complete_pms_not_found)


lemma update_where_id_hit:
  assumes "r' \<in> set (update_where_id i f t)" and "cid r' = i" and "\<And>r. cid (f r) = cid r"
  shows "\<exists>r \<in> set t. cid r = i \<and> r' = f r"
proof -
  from update_where_id_set [OF assms(1)] obtain r where
    r: "r \<in> set t" "r' = (if cid r = i then f r else r)" by blast
  show ?thesis
  proof (cases "cid r = i")
    case True
    with r show ?thesis by auto
  next
    case False
    with r assms(2) show ?thesis by simp
  qed
qed

lemma update_where_id_keeps:
  assumes "r \<in> set t" and "cid r = i"
  shows "f r \<in> set (update_where_id i f t)"
  using assms unfolding update_where_id_def set_map by (intro image_eqI [of _ _ r]) simp_all

lemma updated_row_schedule:
  assumes "r \<in> set (update_where_id i (\<lambda>r. r\<lparr>next_pms_schedule := Some v, updated_at := clock\<rparr>) table)"
    and "cid r = i"
  shows "next_pms_schedule r = Some v"
proof -
  from update_where_id_hit [OF assms] obtain r0 where
    "r = r0\<lparr>next_pms_schedule := Some v, updated_at := clock\<rparr>" by auto
  then show ?thesis by simp
qed

lemma updated_row_exists:
  assumes "\<exists>r \<in> set table. cid r = i"
  shows "\<exists>r \<in> set (update_where_id i (\<lambda>r. r\<lparr>next_pms_schedule := Some v, updated_at := clock\<rparr>) table). cid r = i"
proof -
  from assms obtain r where r: "r \<in> set table" "cid r = i" by blast
  from update_where_id_keeps [OF r] have
    "r\<lparr>next_pms_schedule := Some v, updated_at := clock\<rparr>
       \<in> set (update_where_id i (\<lambda>r. r\<lparr>next_pms_schedule := Some v, updated_at := clock\<rparr>) table)" .
  moreover have "cid (r\<lparr>next_pms_schedule := Some v, updated_at := clock\<rparr>) = i"
    using r by simp
  ultimately show ?thesis by blast
qed

lemma filter_id_nonempty:
  assumes ex: "\<exists>r \<in> set table. cid r = i"
  shows "\<exists>c cs. filter (\<lambda>r. cid r = i) table = c # cs"
proof -
  from ex have "filter (\<lambda>r. cid r = i) table \<noteq> []"
    by (simp add: filter_empty_conv)
  then show ?thesis by (cases "filter (\<lambda>r. cid r = i) table") simp_all
qed


lemma complete_pms_run:
  assumes "filter (\<lambda>r. cid r = i) table = c # cs"
    and "dt_add (completion_datetime p clock cdate) (timedelta_days days) = Inr nxt"
  shows "complete_pms ct days p clock nid tech cdate u i table history
       = (Inr \<lparr>answer = ''PMS completed successfully'', service_history_id = nid,
               answer_next_pms_schedule = isoformat nxt\<rparr>,
          update_where_id i
            (\<lambda>r. r\<lparr>next_pms_schedule := Some (isoformat nxt), updated_at := clock\<rparr>) table,
          history @
            [\<lparr>event_id = nid, contract_id = i, contract_type = ct,
              service_date = isoformat (completion_datetime p clock cdate),
              service_type = ''PMS'',
              description = ''PMS completed for '' @ fmt_opt (sq c) @ '' - '' @ end_user c,
              technician = (if given tech then tech
                            else if full_name u \<noteq> [] then Some (full_name u)
                            else technical_specialist c),
              event_status = ''completed''\<rparr>])"
  using assms by (simp add: complete_pms_def Let_def)


theorem complete_pms_unknown_contract_witness:
  "complete_hardware_pms fromisoformat_core 63840009600000000 ''h-1'' None (Some ''2024-01-15'')
     sample_user ''c-9'' sample_db = (Inl (HTTPException 404), sample_db)
   \<and> complete_label_pms fromisoformat_core 63840009600000000 ''h-1'' None (Some ''2024-01-15'')
     sample_user ''c-9'' sample_db = (Inl (HTTPException 404), sample_db)"
  using complete_pms_unknown_contract
          [of sample_db "''c-9''" fromisoformat_core 63840009600000000 "''h-1''" None
              "Some ''2024-01-15''" sample_user]
  by (simp add: sample_db_def sample_label_def sample_hardware_def)




lemma complete_pms_fallback:
  assumes bad: "cdate = None \<or> cdate = Some [] \<or> (\<exists>s. cdate = Some s \<and> p s = None)"
    and clk: "0 \<le> clock + timedelta_days days" "clock + timedelta_days days < MAXWALL"
    and ex: "\<exists>r \<in> set table. cid r = i"
  shows "\<exists>res t' h' ev.
           complete_pms ct days p clock nid tech cdate u i table history = (Inr res, t', h')
         \<and> answer_next_pms_schedule res = isoformat (plus_wall (utcnow clock) (timedelta_days days))
         \<and> service_history_id res = nid
         \<and> (\<forall>r \<in> set t'. cid r = i \<longrightarrow>
               next_pms_schedule r = Some (isoformat (plus_wall (utcnow clock) (timedelta_days days))))
         \<and> (\<exists>r \<in> set t'. cid r = i)
         \<and> h' = history @ [ev] \<and> event_id ev = nid \<and> contract_id ev = i
         \<and> service_date ev = isoformat (utcnow clock) \<and> event_status ev = ''completed''"
proof -
  let ?nx = "plus_wall (utcnow clock) (timedelta_days days)"
  have now: "completion_datetime p clock cdate = utcnow clock"
    using bad by (rule completion_datetime_fallback)
  have add: "dt_add (completion_datetime p clock cdate) (timedelta_days days) = Inr ?nx"
    unfolding now using clk by (simp add: dt_add_def plus_wall_def utcnow_def)
  from filter_id_nonempty [OF ex] obtain c cs where
    f: "filter (\<lambda>r. cid r = i) table = c # cs" by blast
  let ?res = "\<lparr>answer = ''PMS completed successfully'', service_history_id = nid,
               answer_next_pms_schedule = isoformat ?nx\<rparr>"
  let ?t = "update_where_id i
            (\<lambda>r. r\<lparr>next_pms_schedule := Some (isoformat ?nx), updated_at := clock\<rparr>) table"
  let ?ev = "\<lparr>event_id = nid, contract_id = i, contract_type = ct,
              service_date = isoformat (completion_datetime p clock cdate),
              service_type = ''PMS'',
              description = ''PMS completed for '' @ fmt_opt (sq c) @ '' - '' @ end_user c,
              technician = (if given tech then tech
                            else if full_name u \<noteq> [] then Some (full_name u)
                            else technical_specialist c),
              event_status = ''completed''\<rparr>"
  have run: "complete_pms ct days p clock nid tech cdate u i table history
      = (Inr ?res, ?t, history @ [?ev])"
    by (rule complete_pms_run [OF f add])
  have a: "answer_next_pms_schedule ?res = isoformat ?nx" by simp
  have b: "service_history_id ?res = nid" by simp
  have c: "\<forall>r \<in> set ?t. cid r = i \<longrightarrow> next_pms_schedule r = Some (isoformat ?nx)"
    using updated_row_schedule by blast
  have d: "\<exists>r \<in> set ?t. cid r = i"
    using ex by (rule updated_row_exists)
  have e: "event_id ?ev = nid" "contract_id ?ev = i" "event_status ?ev = ''completed''"
    by simp_all
  have g: "service_date ?ev = isoformat (utcnow clock)"
    by (simp add: now)
  have "complete_pms ct days p clock nid tech cdate u i table history = (Inr ?res, ?t, history @ [?ev])
         \<and> answer_next_pms_schedule ?res = isoformat ?nx
         \<and> service_history_id ?res = nid
         \<and> (\<forall>r \<in> set ?t. cid r = i \<longrightarrow> next_pms_schedule r = Some (isoformat ?nx))
         \<and> (\<exists>r \<in> set ?t. cid r = i)
         \<and> history @ [?ev] = history @ [?ev] \<and> event_id ?ev = nid \<and> contract_id ?ev = i
         \<and> service_date ?ev = isoformat (utcnow clock) \<and> event_status ?ev = ''completed''"
    using run a b c d e g by (intro conjI refl)
  then show ?thesis by (intro exI)
qed

lemma complete_hardware_pms_fallback:
  assumes bad: "cdate = None \<or> cdate = Some [] \<or> (\<exists>s. cdate = Some s \<and> p s = None)"
    and clk: "0 \<le> clock + timedelta_days 90" "clock + timedelta_days 90 < MAXWALL"
    and ex: "\<exists>r \<in> set (hardware_contracts d). cid r = i"
  shows "\<exists>res d' ev.
             complete_hardware_pms p clock nid tech cdate u i d = (Inr res, d')
           \<and> answer_next_pms_schedule res = isoformat (plus_wall (utcnow clock) (timedelta_days 90))
           \<and> service_history_id res = nid
           \<and> (\<forall>r \<in> set (hardware_contracts d'). cid r = i \<longrightarrow>
                 next_pms_schedule r = Some (isoformat (plus_wall (utcnow clock) (timedelta_days 90))))
           \<and> (\<exists>r \<in> set (hardware_contracts d'). cid r = i)
           \<and> service_history d' = service_history d @ [ev] \<and> event_id ev = nid
           \<and> contract_id ev = i
           \<and> service_date ev = isoformat (utcnow clock) \<and> event_status ev = ''completed''"
proof -
  from complete_pms_fallback [OF bad clk ex, of "''hardware''" nid tech u "service_history d"]
  obtain res where "\<exists>t' h' ev.
           complete_pms ''hardware'' 90 p clock nid tech cdate u i (hardware_contracts d) (service_history d)
             = (Inr res, t', h')
         \<and> answer_next_pms_schedule res = isoformat (plus_wall (utcnow clock) (timedelta_days 90))
         \<and> service_history_id res = nid
         \<and> (\<forall>r \<in> set t'. cid r = i \<longrightarrow>
               next_pms_schedule r = Some (isoformat (plus_wall (utcnow clock) (timedelta_days 90))))
         \<and> (\<exists>r \<in> set t'. cid r = i)
         \<and> h' = service_history d @ [ev] \<and> event_id ev = nid \<and> contract_id ev = i
         \<and> service_date ev = isoformat (utcnow clock) \<and> event_status ev = ''completed''" ..
  then obtain t' where "\<exists>h' ev.
           complete_pms ''hardware'' 90 p clock nid tech cdate u i (hardware_contracts d) (service_history d)
             = (Inr res, t', h')
         \<and> answer_next_pms_schedule res = isoformat (plus_wall (utcnow clock) (timedelta_days 90))
         \<and> service_history_id res = nid
         \<and> (\<forall>r \<in> set t'. cid r = i \<longrightarrow>
               next_pms_schedule r = Some (isoformat (plus_wall (utcnow clock) (timedelta_days 90))))
         \<and> (\<exists>r \<in> set t'. cid r = i)
         \<and> h' = service_history d @ [ev] \<and> event_id ev = nid \<and> contract_id ev = i
         \<and> service_date ev = isoformat (utcnow clock) \<and> event_status ev = ''completed''" ..
  then obtain h' where "\<exists>ev.
           complete_pms ''hardware'' 90 p clock nid tech cdate u i (hardware_contracts d) (service_history d)
             = (Inr res, t', h')
         \<and> answer_next_pms_schedule res = isoformat (plus_wall (utcnow clock) (timedelta_days 90))
         \<and> service_history_id res = nid
         \<and> (\<forall>r \<in> set t'. cid r = i \<longrightarrow>
               next_pms_schedule r = Some (isoformat (plus_wall (utcnow clock) (timedelta_days 90))))
         \<and> (\<exists>r \<in> set t'. cid r = i)
         \<and> h' = service_history d @ [ev] \<and> event_id ev = nid \<and> contract_id ev = i
         \<and> service_date ev = isoformat (utcnow clock) \<and> event_status ev = ''completed''" ..
  then obtain ev where H:
          "complete_pms ''hardware'' 90 p clock nid tech cdate u i (hardware_contracts d) (service_history d)
             = (Inr res, t', h')
         \<and> answer_next_pms_schedule res = isoformat (plus_wall (utcnow clock) (timedelta_days 90))
         \<and> service_history_id res = nid
         \<and> (\<forall>r \<in> set t'. cid r = i \<longrightarrow>
               next_pms_schedule r = Some (isoformat (plus_wall (utcnow clock) (timedelta_days 90))))
         \<and> (\<exists>r \<in> set t'. cid r = i)
         \<and> h' = service_history d @ [ev] \<and> event_id ev = nid \<and> contract_id ev = i
         \<and> service_date ev = isoformat (utcnow clock) \<and> event_status ev = ''completed''" ..
  let ?d = "d\<lparr>hardware_contracts := t', service_history := h'\<rparr>"
  from H have run: "complete_hardware_pms p clock nid tech cdate u i d = (Inr res, ?d)"
    by (simp add: complete_hardware_pms_def)
  have sel: "hardware_contracts ?d = t'" "service_history ?d = h'" by simp_all
  have "complete_hardware_pms p clock nid tech cdate u i d = (Inr res, ?d)
           \<and> answer_next_pms_schedule res = isoformat (plus_wall (utcnow clock) (timedelta_days 90))
           \<and> service_history_id res = nid
           \<and> (\<forall>r \<in> set (hardware_contracts ?d). cid r = i \<longrightarrow>
                 next_pms_schedule r = Some (isoformat (plus_wall (utcnow clock) (timedelta_days 90))))
           \<and> (\<exists>r \<in> set (hardware_contracts ?d). cid r = i)
           \<and> service_history ?d = service_history d @ [ev] \<and> event_id ev = nid
           \<and> contract_id ev = i
           \<and> service_date ev = isoformat (utcnow clock) \<and> event_status ev = ''completed''"
    unfolding sel using run H by (intro conjI) (elim conjE, assumption)+
  then show ?thesis by (intro exI)
qed
lemma complete_label_pms_fallback:
  assumes bad: "cdate = None \<or> cdate = Some [] \<or> (\<exists>s. cdate = Some s \<and> p s = None)"
    and clk: "0 \<le> clock + timedelta_days 30" "clock + timedelta_days 30 < MAXWALL"
    and ex: "\<exists>r \<in> set (label_contracts d). cid r = i"
  shows "\<exists>res d' ev.
             complete_label_pms p clock nid tech cdate u i d = (Inr res, d')
           \<and> answer_next_pms_schedule res = isoformat (plus_wall (utcnow clock) (timedelta_days 30))
           \<and> service_history_id res = nid
           \<and> (\<forall>r \<in> set (label_contracts d'). cid r = i \<longrightarrow>
                 next_pms_schedule r = Some (isoformat (plus_wall (utcnow clock) (timedelta_days 30))))
           \<and> (\<exists>r \<in> set (label_contracts d'). cid r = i)
           \<and> service_history d' = service_history d @ [ev] \<and> event_id ev = nid
           \<and> contract_id ev = i
           \<and> service_date ev = isoformat (utcnow clock) \<and> event_status ev = ''completed''"
proof -
  from complete_pms_fallback [OF bad clk ex, of "''label''" nid tech u "service_history d"]
  obtain res where "\<exists>t' h' ev.
           complete_pms ''label'' 30 p clock nid tech cdate u i (label_contracts d) (service_history d)
             = (Inr res, t', h')
         \<and> answer_next_pms_schedule res = isoformat (plus_wall (utcnow clock) (timedelta_days 30))
         \<and> service_history_id res = nid
         \<and> (\<forall>r \<in> set t'. cid r = i \<longrightarrow>
               next_pms_schedule r = Some (isoformat (plus_wall (utcnow clock) (timedelta_days 30))))
         \<and> (\<exists>r \<in> set t'. cid r = i)
         \<and> h' = service_history d @ [ev] \<and> event_id ev = nid \<and> contract_id ev = i
         \<and> service_date ev = isoformat (utcnow clock) \<and> event_status ev = ''completed''" ..
  then obtain t' where "\<exists>h' ev.
           complete_pms ''label'' 30 p clock nid tech cdate u i (label_contracts d) (service_history d)
             = (Inr res, t', h')
         \<and> answer_next_pms_schedule res = isoformat (plus_wall (utcnow clock) (timedelta_days 30))
         \<and> service_history_id res = nid
         \<and> (\<forall>r \<in> set t'. cid r = i \<longrightarrow>
               next_pms_schedule r = Some (isoformat (plus_wall (utcnow clock) (timedelta_days 30))))
         \<and> (\<exists>r \<in> set t'. cid r = i)
         \<and> h' = service_history d @ [ev] \<and> event_id ev = nid \<and> contract_id ev = i
         \<and> service_date ev = isoformat (utcnow clock) \<and> event_status ev = ''completed''" ..
  then obtain h' where "\<exists>ev.
           complete_pms ''label'' 30 p clock nid tech cdate u i (label_contracts d) (service_history d)
             = (Inr res, t', h')
         \<and> answer_next_pms_schedule res = isoformat (plus_wall (utcnow clock) (timedelta_days 30))
         \<and> service_history_id res = nid
         \<and> (\<forall>r \<in> set t'. cid r = i \<longrightarrow>
               next_pms_schedule r = Some (isoformat (plus_wall (utcnow clock) (timedelta_days 30))))
         \<and> (\<exists>r \<in> set t'. cid r = i)
         \<and> h' = service_history d @ [ev] \<and> event_id ev = nid \<and> contract_id ev = i
         \<and> service_date ev = isoformat (utcnow clock) \<and> event_status ev = ''completed''" ..
  then obtain ev where H:
          "complete_pms ''label'' 30 p clock nid tech cdate u i (label_contracts d) (service_history d)
             = (Inr res, t', h')
         \<and> answer_next_pms_schedule res = isoformat (plus_wall (utcnow clock) (timedelta_days 30))
         \<and> service_history_id res = nid
         \<and> (\<forall>r \<in> set t'. cid r = i \<longrightarrow>
               next_pms_schedule r = Some (isoformat (plus_wall (utcnow clock) (timedelta_days 30))))
         \<and> (\<exists>r \<in> set t'. cid r = i)
         \<and> h' = service_history d @ [ev] \<and> event_id ev = nid \<and> contract_id ev = i
         \<and> service_date ev = isoformat (utcnow clock) \<and> event_status ev = ''completed''" ..
  let ?d = "d\<lparr>label_contracts := t', service_history := h'\<rparr>"
  from H have run: "complete_label_pms p clock nid tech cdate u i d = (Inr res, ?d)"
    by (simp add: complete_label_pms_def)
  have sel: "label_contracts ?d = t'" "service_history ?d = h'" by simp_all
  have "complete_label_pms p clock nid tech cdate u i d = (Inr res, ?d)
           \<and> answer_next_pms_schedule res = isoformat (plus_wall (utcnow clock) (timedelta_days 30))
           \<and> service_history_id res = nid
           \<and> (\<forall>r \<in> set (label_contracts ?d). cid r = i \<longrightarrow>
                 next_pms_schedule r = Some (isoformat (plus_wall (utcnow clock) (timedelta_days 30))))
           \<and> (\<exists>r \<in> set (label_contracts ?d). cid r = i)
           \<and> service_history ?d = service_history d @ [ev] \<and> event_id ev = nid
           \<and> contract_id ev = i
           \<and> service_date ev = isoformat (utcnow clock) \<and> event_status ev = ''completed''"
    unfolding sel using run H by (intro conjI) (elim conjE, assumption)+
  then show ?thesis by (intro exI)
qed

text \<open>
  C8. When the completion date is absent, empty or does not parse, a complete-pms call
  on an existing contract still succeeds, with the clock reading in place of the date: the
  history row is appended with the clock reading as its service date, and both the
  answer and the contract carry the clock reading plus 90 days (hardware) or 30 days (label)
  as the next schedule. The clock is assumed to be a datetime at least 90 days before the
  end of year 9999.
\<close>

theorem complete_pms_date_fallback:
  assumes "cdate = None \<or> cdate = Some [] \<or> (\<exists>s. cdate = Some s \<and> p s = None)"
    and "0 \<le> clock" and "clock + timedelta_days 90 < MAXWALL"
  shows "((\<exists>r \<in> set (hardware_contracts d). cid r = i) \<longrightarrow>
          (\<exists>res d' ev.
             complete_hardware_pms p clock nid tech cdate u i d = (Inr res, d')
           \<and> answer_next_pms_schedule res = isoformat (plus_wall (utcnow clock) (timedelta_days 90))
           \<and> service_history_id res = nid
           \<and> (\<forall>r \<in> set (hardware_contracts d'). cid r = i \<longrightarrow>
                 next_pms_schedule r = Some (isoformat (plus_wall (utcnow clock) (timedelta_days 90))))
           \<and> (\<exists>r \<in> set (hardware_contracts d'). cid r = i)
           \<and> service_history d' = service_history d @ [ev] \<and> event_id ev = nid
           \<and> contract_id ev = i
           \<and> service_date ev = isoformat (utcnow clock) \<and> event_status ev = ''completed''))
       \<and> ((\<exists>r \<in> set (label_contracts d). cid r = i) \<longrightarrow>
          (\<exists>res d' ev.
             complete_label_pms p clock nid tech cdate u i d = (Inr res, d')
           \<and> answer_next_pms_schedule res = isoformat (plus_wall (utcnow clock) (timedelta_days 30))
           \<and> service_history_id res = nid
           \<and> (\<forall>r \<in> set (label_contracts d'). cid r = i \<longrightarrow>
                 next_pms_schedule r = Some (isoformat (plus_wall (utcnow clock) (timedelta_days 30))))
           \<and> (\<exists>r \<in> set (label_contracts d'). cid r = i)
           \<and> service_history d' = service_history d @ [ev] \<and> event_id ev = nid
           \<and> contract_id ev = i
           \<and> service_date ev = isoformat (utcnow clock) \<and> event_status ev = ''completed''))"
proof (intro conjI impI)
  assume ex: "\<exists>r \<in> set (hardware_contracts d). cid r = i"
  have c1: "0 \<le> clock + timedelta_days 90"
    using assms(2) by (simp add: timedelta_days_def DAY_def)
  show "\<exists>res d' ev.
             complete_hardware_pms p clock nid tech cdate u i d = (Inr res, d')
           \<and> answer_next_pms_schedule res = isoformat (plus_wall (utcnow clock) (timedelta_days 90))
           \<and> service_history_id res = nid
           \<and> (\<forall>r \<in> set (hardware_contracts d'). cid r = i \<longrightarrow>
                 next_pms_schedule r = Some (isoformat (plus_wall (utcnow clock) (timedelta_days 90))))
           \<and> (\<exists>r \<in> set (hardware_contracts d'). cid r = i)
           \<and> service_history d' = service_history d @ [ev] \<and> event_id ev = nid
           \<and> contract_id ev = i
           \<and> service_date ev = isoformat (utcnow clock) \<and> event_status ev = ''completed''"
    by (rule complete_hardware_pms_fallback [OF assms(1) c1 assms(3) ex])
next
  assume ex: "\<exists>r \<in> set (label_contracts d). cid r = i"
  have c1: "0 \<le> clock + timedelta_days 30"
    using assms(2) by (simp add: timedelta_days_def DAY_def)
  have c2: "clock + timedelta_days 30 < MAXWALL"
    using assms(3) by (simp add: timedelta_days_def DAY_def)
  show "\<exists>res d' ev.
             complete_label_pms p clock nid tech cdate u i d = (Inr res, d')
           \<and> answer_next_pms_schedule res = isoformat (plus_wall (utcnow clock) (timedelta_days 30))
           \<and> service_history_id res = nid
           \<and> (\<forall>r \<in> set (label_contracts d'). cid r = i \<longrightarrow>
                 next_pms_schedule r = Some (isoformat (plus_wall (utcnow clock) (timedelta_days 30))))
           \<and> (\<exists>r \<in> set (label_contracts d'). cid r = i)
           \<and> service_history d' = service_history d @ [ev] \<and> event_id ev = nid
           \<and> contract_id ev = i
           \<and> service_date ev = isoformat (utcnow clock) \<and> event_status ev = ''completed''"
    by (rule complete_label_pms_fallback [OF assms(1) c1 c2 ex])
qed

theorem complete_pms_date_fallback_witness:
  "(\<exists>res d' ev.
      complete_hardware_pms fromisoformat_core 63840009600000000 ''h-3'' None (Some ''15/01/2024'')
        sample_user ''c-2'' sample_db = (Inr res, d')
      \<and> answer_next_pms_schedule res
          = isoformat (plus_wall (utcnow 63840009600000000) (timedelta_days 90))
      \<and> service_history d' = service_history sample_db @ [ev]
      \<and> service_date ev = isoformat (utcnow 63840009600000000))
   \<and> (\<exists>res d' ev.
      complete_label_pms fromisoformat_core 63840009600000000 ''h-3'' None (Some ''15/01/2024'')
        sample_user ''c-1'' sample_db = (Inr res, d')
      \<and> answer_next_pms_schedule res
          = isoformat (plus_wall (utcnow 63840009600000000) (timedelta_days 30))
      \<and> service_history d' = service_history sample_db @ [ev]
      \<and> service_date ev = isoformat (utcnow 63840009600000000))"
proof -
  have bad: "Some ''15/01/2024'' = None \<or> Some ''15/01/2024'' = Some []
      \<or> (\<exists>s. Some ''15/01/2024'' = Some s \<and> fromisoformat_core s = None)"
  proof -
    have "fromisoformat_core ''15/01/2024'' = None" by code_simp
    then show ?thesis by simp
  qed
  have c0: "(0::int) \<le> 63840009600000000" by simp
  have c1: "63840009600000000 + timedelta_days 90 < MAXWALL"
    by (simp add: timedelta_days_def DAY_def MAXWALL_def)
  have h: "\<exists>r \<in> set (hardware_contracts sample_db). cid r = ''c-2''"
    by (simp add: sample_db_def sample_hardware_def)
  have l: "\<exists>r \<in> set (label_contracts sample_db). cid r = ''c-1''"
    by (simp add: sample_db_def sample_label_def)
  note t = complete_pms_date_fallback [OF bad c0 c1, where nid = "''h-3''" and tech = None
      and u = sample_user and d = sample_db]
  from t [where i = "''c-2''"] h have
    "\<exists>res d' ev.
      complete_hardware_pms fromisoformat_core 63840009600000000 ''h-3'' None (Some ''15/01/2024'')
        sample_user ''c-2'' sample_db = (Inr res, d')
      \<and> answer_next_pms_schedule res
          = isoformat (plus_wall (utcnow 63840009600000000) (timedelta_days 90))
      \<and> service_history d' = service_history sample_db @ [ev]
      \<and> service_date ev = isoformat (utcnow 63840009600000000)"
    by blast
  moreover from t [where i = "''c-1''"] l have
    "\<exists>res d' ev.
      complete_label_pms fromisoformat_core 63840009600000000 ''h-3'' None (Some ''15/01/2024'')
        sample_user ''c-1'' sample_db = (Inr res, d')
      \<and> answer_next_pms_schedule res
          = isoformat (plus_wall (utcnow 63840009600000000) (timedelta_days 30))
      \<and> service_history d' = service_history sample_db @ [ev]
      \<and> service_date ev = isoformat (utcnow 63840009600000000)"
    by blast
  ultimately show ?thesis by (intro conjI)
qed

section \<open>The expiry scan\<close>

text \<open>The comparison of the two \<^verbatim>\<open>.date()\<close> values is the comparison of the end
  date with the midnight at which today began.\<close>

lemma start_of_day_bounds:
  "start_of_day clock \<le> clock \<and> clock < start_of_day clock + 86400000000
   \<and> start_of_day clock mod 86400000000 = 0"
  by (simp add: start_of_day_def)

lemma date_before_today:
  "date_of end_date < date_of (utcnow clock) \<longleftrightarrow> wall end_date < start_of_day clock"
proof -
  have pos: "(0::int) < 86400000000" by simp
  have "start_of_day clock = (clock div 86400000000) * 86400000000"
    by (simp add: start_of_day_def minus_mod_eq_div_mult)
  moreover have "wall end_date div 86400000000 < clock div 86400000000
      \<longleftrightarrow> wall end_date < (clock div 86400000000) * 86400000000"
    using le_div_iff_mult_le [OF pos, of "clock div 86400000000" "wall end_date"] by linarith
  ultimately show ?thesis by (simp add: date_of_def utcnow_def DAY_def)
qed

lemma expire_loop_step:
  "expire_loop p clock (c # rows) table count =
     (if past_end p clock c
      then expire_loop p clock rows
             (update_where_id (cid c) (\<lambda>r. r\<lparr>status := ''expired'', updated_at := clock\<rparr>) table)
             (Suc count)
      else expire_loop p clock rows table count)"
  by (simp add: past_end_def date_before_today split: option.splits)

lemma expire_loop_result:
  "expire_loop p clock rows table count =
     (map (\<lambda>r. if cid r \<in> cid ` {c \<in> set rows. past_end p clock c}
                then r\<lparr>status := ''expired'', updated_at := clock\<rparr> else r) table,
      count + length (filter (past_end p clock) rows))"
proof (induction rows arbitrary: table count)
  case Nil
  show ?case by simp
next
  case (Cons c rows)
  show ?case
  proof (cases "past_end p clock c")
    case False
    then have "{x \<in> set (c # rows). past_end p clock x} = {x \<in> set rows. past_end p clock x}"
      by auto
    with False Cons show ?thesis by (simp only: expire_loop_step) simp
  next
    case True
    then have S: "cid ` {x \<in> set (c # rows). past_end p clock x}
        = insert (cid c) (cid ` {x \<in> set rows. past_end p clock x})"
      by auto
    have "map (\<lambda>r. if cid r \<in> cid ` {c \<in> set rows. past_end p clock c}
                then r\<lparr>status := ''expired'', updated_at := clock\<rparr> else r)
            (update_where_id (cid c) (\<lambda>r. r\<lparr>status := ''expired'', updated_at := clock\<rparr>) table)
        = map (\<lambda>r. if cid r \<in> insert (cid c) (cid ` {c \<in> set rows. past_end p clock c})
                then r\<lparr>status := ''expired'', updated_at := clock\<rparr> else r) table"
      by (simp add: update_where_id_def)
    with True Cons S show ?thesis by (simp only: expire_loop_step) simp
  qed
qed

lemma past_end_expire_row [simp]: "past_end p clock (expire_row q k c) = past_end p clock c"
  by (simp add: past_end_def expire_row_def)

lemma cid_expire_row [simp]: "cid (expire_row p clock c) = cid c"
  by (simp add: expire_row_def)

lemma expire_loop_table:
  assumes "distinct (map cid table)"
  shows "expire_loop p clock (select_not_expired table) table 0
       = (map (expire_row p clock) table, length (filter (due_to_expire p clock) table))"
proof -
  have sel: "cid r \<in> cid ` {c \<in> set (select_not_expired table). past_end p clock c}
      \<longleftrightarrow> due_to_expire p clock r" if r: "r \<in> set table" for r
  proof
    assume "cid r \<in> cid ` {c \<in> set (select_not_expired table). past_end p clock c}"
    then obtain c where c: "c \<in> set table" "status c \<noteq> ''expired''" "past_end p clock c"
      and "cid r = cid c"
      by (auto simp: select_not_expired_def)
    with assms r have "r = c" by (meson distinct_map inj_onD)
    with c show "due_to_expire p clock r" by (simp add: due_to_expire_def)
  next
    assume "due_to_expire p clock r"
    with r show "cid r \<in> cid ` {c \<in> set (select_not_expired table). past_end p clock c}"
      by (auto simp: due_to_expire_def select_not_expired_def)
  qed
  have "map (\<lambda>r. if cid r \<in> cid ` {c \<in> set (select_not_expired table). past_end p clock c}
                then r\<lparr>status := ''expired'', updated_at := clock\<rparr> else r) table
      = map (expire_row p clock) table"
    by (rule map_cong) (simp_all add: sel expire_row_def)
  moreover have "filter (past_end p clock) (select_not_expired table)
      = filter (due_to_expire p clock) table"
    unfolding select_not_expired_def filter_filter
    by (rule filter_cong) (auto simp: due_to_expire_def)
  ultimately show ?thesis by (simp add: expire_loop_result)
qed

lemma due_to_expire_expire_row [simp]: "\<not> due_to_expire p clock (expire_row p clock c)"
  by (simp add: due_to_expire_def expire_row_def past_end_def)

text \<open>
  C4. With unique contract ids, one run of the expiry scan marks exactly the contracts
  that are not yet expired and whose end date falls on a day strictly before today (the
  end date reads earlier than today's midnight, whatever the time of day of either) and
  changes nothing else; the counts it logs are the numbers of such contracts. A second run
  at the same time on the result changes nothing and marks no contract, and a run at any
  later time leaves every contract the first run expired as that run wrote it.
\<close>

theorem check_expired_contracts_exact_and_idempotent:
  assumes "distinct (map cid (hardware_contracts d))" and "distinct (map cid (label_contracts d))"
  shows "check_expired_contracts p clock d
           = (d\<lparr>hardware_contracts := map (expire_row p clock) (hardware_contracts d),
                label_contracts := map (expire_row p clock) (label_contracts d)\<rparr>,
              length (filter (due_to_expire p clock) (hardware_contracts d)),
              length (filter (due_to_expire p clock) (label_contracts d)))
       \<and> check_expired_contracts p clock (fst (check_expired_contracts p clock d))
           = (fst (check_expired_contracts p clock d), 0, 0)
       \<and> (\<forall>later. fst (check_expired_contracts p later (fst (check_expired_contracts p clock d)))
             = d\<lparr>hardware_contracts :=
                    map (\<lambda>r. if status r \<noteq> ''expired'' \<and> past_end p clock r
                              then r\<lparr>status := ''expired'', updated_at := clock\<rparr>
                              else expire_row p later r) (hardware_contracts d),
                  label_contracts :=
                    map (\<lambda>r. if status r \<noteq> ''expired'' \<and> past_end p clock r
                              then r\<lparr>status := ''expired'', updated_at := clock\<rparr>
                              else expire_row p later r) (label_contracts d)\<rparr>)"
proof -
  have run: "check_expired_contracts q k e
           = (e\<lparr>hardware_contracts := map (expire_row q k) (hardware_contracts e),
                label_contracts := map (expire_row q k) (label_contracts e)\<rparr>,
              length (filter (due_to_expire q k) (hardware_contracts e)),
              length (filter (due_to_expire q k) (label_contracts e)))"
    if "distinct (map cid (hardware_contracts e))" "distinct (map cid (label_contracts e))"
    for q k e
    using that by (simp add: check_expired_contracts_def expire_loop_table Let_def)
  let ?d1 = "d\<lparr>hardware_contracts := map (expire_row p clock) (hardware_contracts d),
                label_contracts := map (expire_row p clock) (label_contracts d)\<rparr>"
  have first: "check_expired_contracts p clock d
           = (?d1, length (filter (due_to_expire p clock) (hardware_contracts d)),
              length (filter (due_to_expire p clock) (label_contracts d)))"
    using assms by (rule run)
  have dist: "distinct (map cid (hardware_contracts ?d1))" "distinct (map cid (label_contracts ?d1))"
    using assms by (simp_all add: comp_def)
  have none: "filter (due_to_expire p clock) (map (expire_row p clock) t) = []" for t
    by (simp add: filter_empty_conv)
  have same: "expire_row p clock (expire_row p clock r) = expire_row p clock r" for r
    by (simp add: expire_row_def due_to_expire_def)
  have second: "check_expired_contracts p clock ?d1 = (?d1, 0, 0)"
    by (simp add: run [OF dist] none comp_def same)
  have twice: "expire_row p later (expire_row p clock r)
      = (if status r \<noteq> ''expired'' \<and> past_end p clock r
         then r\<lparr>status := ''expired'', updated_at := clock\<rparr>
         else expire_row p later r)" for later r
    by (simp add: expire_row_def due_to_expire_def)
  have third: "fst (check_expired_contracts p later ?d1)
             = d\<lparr>hardware_contracts :=
                    map (\<lambda>r. if status r \<noteq> ''expired'' \<and> past_end p clock r
                              then r\<lparr>status := ''expired'', updated_at := clock\<rparr>
                              else expire_row p later r) (hardware_contracts d),
                  label_contracts :=
                    map (\<lambda>r. if status r \<noteq> ''expired'' \<and> past_end p clock r
                              then r\<lparr>status := ''expired'', updated_at := clock\<rparr>
                              else expire_row p later r) (label_contracts d)\<rparr>" for later
    by (simp add: run [OF dist] comp_def twice)
  show ?thesis
    unfolding first fst_conv using second third by (intro conjI allI) simp_all
qed

theorem check_expired_contracts_exact_and_idempotent_witness:
  "map end_of_contract sample_ending = [Some ''2024-11-01T08:00:00'', Some ''2024-10-31T23:30:00'']
   \<and> isoformat (utcnow 63866048400000000) = ''2024-11-01T09:00:00''
   \<and> map status (hardware_contracts (fst (check_expired_contracts fromisoformat_core 63866048400000000
          (sample_db\<lparr>hardware_contracts := sample_ending\<rparr>))))
       = [''active'', ''expired'']
   \<and> map status (label_contracts (fst (check_expired_contracts fromisoformat_core 63866048400000000
          (sample_db\<lparr>hardware_contracts := sample_ending\<rparr>))))
       = [''active'']
   \<and> snd (check_expired_contracts fromisoformat_core 63866048400000000
          (sample_db\<lparr>hardware_contracts := sample_ending\<rparr>)) = (1, 0)
   \<and> check_expired_contracts fromisoformat_core 63866048400000000
         (fst (check_expired_contracts fromisoformat_core 63866048400000000
                 (sample_db\<lparr>hardware_contracts := sample_ending\<rparr>)))
       = (fst (check_expired_contracts fromisoformat_core 63866048400000000
                 (sample_db\<lparr>hardware_contracts := sample_ending\<rparr>)), 0, 0)"
proof -
  let ?d = "sample_db\<lparr>hardware_contracts := sample_ending\<rparr>"
  let ?c = "63866048400000000 :: int"
  have dh: "distinct (map cid (hardware_contracts ?d))"
    and dl: "distinct (map cid (label_contracts ?d))"
    by (simp_all add: sample_db_def sample_ending_def)
  have e: "map end_of_contract sample_ending
      = [Some ''2024-11-01T08:00:00'', Some ''2024-10-31T23:30:00'']"
    by (simp add: sample_ending_def)
  have now: "isoformat (utcnow 63866048400000000) = ''2024-11-01T09:00:00''"
    by code_simp
  have p1: "fromisoformat_core (replace_Z ''2024-11-01T08:00:00'')
      = Some \<lparr>wall = 63866044800000000, utcoffset = None\<rparr>"
    by code_simp
  have p2: "fromisoformat_core (replace_Z ''2024-10-31T23:30:00'')
      = Some \<lparr>wall = 63866014200000000, utcoffset = None\<rparr>"
    by code_simp
  have p3: "fromisoformat_core (replace_Z ''2024-12-01T00:00:00'')
      = Some \<lparr>wall = 63868608000000000, utcoffset = None\<rparr>"
    by code_simp
  have sod: "start_of_day ?c = 63866016000000000"
    by (simp add: start_of_day_def)
  have pe: "map (past_end fromisoformat_core ?c) sample_ending = [False, True]"
    by (simp add: sample_ending_def past_end_def p1 p2 sod)
  have pl: "\<not> past_end fromisoformat_core ?c sample_label"
    by (simp add: sample_label_def past_end_def p3 sod)
  have st: "map status sample_ending = [''active'', ''active'']" "status sample_label = ''active''"
    by (simp_all add: sample_ending_def sample_hardware_def sample_label_def)
  have rows: "sample_ending = [sample_ending ! 0, sample_ending ! 1]"
    by (simp add: sample_ending_def)
  note t = check_expired_contracts_exact_and_idempotent [OF dh dl, of fromisoformat_core ?c]
  from t have 1: "check_expired_contracts fromisoformat_core ?c ?d
      = (?d\<lparr>hardware_contracts := map (expire_row fromisoformat_core ?c) (hardware_contracts ?d),
            label_contracts := map (expire_row fromisoformat_core ?c) (label_contracts ?d)\<rparr>,
         length (filter (due_to_expire fromisoformat_core ?c) (hardware_contracts ?d)),
         length (filter (due_to_expire fromisoformat_core ?c) (label_contracts ?d)))"
    by (rule conjunct1)
  from t have 2: "check_expired_contracts fromisoformat_core ?c
         (fst (check_expired_contracts fromisoformat_core ?c ?d))
       = (fst (check_expired_contracts fromisoformat_core ?c ?d), 0, 0)"
    by (rule conjunct1 [OF conjunct2])
  have due: "map (due_to_expire fromisoformat_core ?c) sample_ending = [False, True]"
    using pe st(1) by (subst rows, subst (asm) (1 2) rows) (simp add: due_to_expire_def)
  have 3: "map status (hardware_contracts (fst (check_expired_contracts fromisoformat_core ?c ?d)))
     = [''active'', ''expired'']"
    unfolding 1 using due st(1)
    by (subst rows, subst (asm) (1 2) rows) (simp add: expire_row_def)
  have 4: "map status (label_contracts (fst (check_expired_contracts fromisoformat_core ?c ?d)))
     = [''active'']"
    unfolding 1 by (simp add: sample_db_def expire_row_def due_to_expire_def pl st)
  have 5: "snd (check_expired_contracts fromisoformat_core ?c ?d) = (1, 0)"
    unfolding 1 using due
    by (subst rows, subst (asm) rows) (simp add: sample_db_def due_to_expire_def pl)
  from e now 2 3 4 5 show ?thesis by (intro conjI)
qed

section \<open>The due-soon scan\<close>

lemma upcoming_loop_naive:
  assumes "utcoffset up = None" and "\<forall>(c, ct) \<in> set cs. schedule_naive p c"
  shows "upcoming_loop p up cs = Inr (filter (\<lambda>(c, ct). schedule_due p up c) cs)"
  using assms(2)
proof (induction cs)
  case Nil
  show ?case by simp
next
  case (Cons x cs)
  obtain c ct where x: "x = (c, ct)" by (cases x)
  from Cons.prems have rest: "\<forall>(c, ct) \<in> set cs. schedule_naive p c" by simp
  note IH = Cons.IH [OF rest]
  from Cons.prems x have n: "schedule_naive p c" by simp
  show ?case
  proof (cases "next_pms_schedule c")
    case None
    with IH x show ?thesis by (simp add: schedule_due_def)
  next
    case (Some s)
    show ?thesis
    proof (cases "s = []")
      case True
      with Some IH x show ?thesis by (simp add: schedule_due_def)
    next
      case False
      with n Some obtain d where d: "p (replace_Z s) = Some d" "utcoffset d = None"
        by (auto simp: schedule_naive_def split: option.splits)
      have "dt_le d up = Inr (instant d \<le> instant up)"
        by (rule dt_le_same_awareness) (simp add: d assms(1))
      with Some False d IH x show ?thesis by (simp add: schedule_due_def)
    qed
  qed
qed

lemma upcoming_loop_aware:
  assumes "utcoffset up = None"
    and "(c, ct) \<in> set cs" and "next_pms_schedule c = Some s" and "s \<noteq> []"
    and "p (replace_Z s) = Some d" and "utcoffset d \<noteq> None"
  shows "isl (upcoming_loop p up cs)"
  using assms(2)
proof (induction cs)
  case Nil
  then show ?case by simp
next
  case (Cons x cs)
  obtain c' ct' where x: "x = (c', ct')" by (cases x)
  show ?case
  proof (cases "x = (c, ct)")
    case True
    have "dt_le d up = Inl TypeError"
      by (rule dt_le_mixed) (simp add: assms)
    with True assms show ?thesis by simp
  next
    case False
    with Cons have "isl (upcoming_loop p up cs)" by simp
    then obtain e where "upcoming_loop p up cs = Inl e" by (cases "upcoming_loop p up cs") simp_all
    then show ?thesis
      unfolding x by (simp split: option.splits sum.splits)
  qed
qed

lemma all_contracts_not_expired: "(c, ct) \<in> set (all_contracts d) \<Longrightarrow> status c \<noteq> ''expired''"
  by (auto simp: all_contracts_def select_not_expired_def)

lemma upcoming_loop_subset:
  "upcoming_loop p up cs = Inr found \<Longrightarrow> set found \<subseteq> set cs"
proof (induction cs arbitrary: found)
  case Nil
  then show ?case by simp
next
  case (Cons x cs)
  obtain c ct where x: "x = (c, ct)" by (cases x)
  from Cons.prems show ?case
    unfolding x
    by (auto split: option.splits sum.splits if_splits dest: Cons.IH [THEN subsetD])
qed

lemma upcoming_contracts_never_expired:
  assumes "upcoming_contracts p clock d = Inr found" and "(c, ct) \<in> set found"
  shows "status c \<noteq> ''expired''"
proof -
  from assms(1) obtain up where "upcoming_loop p up (all_contracts d) = Inr found"
    by (auto simp: upcoming_contracts_def split: sum.splits)
  from upcoming_loop_subset [OF this] assms(2) have "(c, ct) \<in> set (all_contracts d)" by blast
  then show ?thesis by (rule all_contracts_not_expired)
qed

lemma upcoming_contracts_naive:
  assumes "0 \<le> clock" and "clock + timedelta_days 7 < MAXWALL"
    and "\<forall>(c, ct) \<in> set (all_contracts d). schedule_naive p c"
  shows "upcoming_contracts p clock d
       = Inr (filter (\<lambda>(c, ct). schedule_due p (plus_wall (utcnow clock) (timedelta_days 7)) c)
                (all_contracts d))"
proof -
  have "0 \<le> wall (utcnow clock) + timedelta_days 7"
    using assms(1) by (simp add: utcnow_def timedelta_days_def DAY_def)
  moreover have "wall (utcnow clock) + timedelta_days 7 < MAXWALL"
    using assms(2) by (simp add: utcnow_def)
  ultimately have add: "dt_add (utcnow clock) (timedelta_days 7)
      = Inr (plus_wall (utcnow clock) (timedelta_days 7))"
    by (rule dt_add_plus_wall)
  have "utcoffset (plus_wall (utcnow clock) (timedelta_days 7)) = None"
    by (simp add: utcnow_def)
  from upcoming_loop_naive [OF this assms(3)] add show ?thesis
    by (simp add: upcoming_contracts_def)
qed

lemma sample_clock_window:
  "dt_add (utcnow 63839696400000000) (timedelta_days 7)
     = Inr \<lparr>wall = 63840301200000000, utcoffset = None\<rparr>"
  by (simp add: dt_add_def utcnow_def timedelta_days_def DAY_def MAXWALL_def)

text \<open>
  C5, at the input where the code departs from it. The hardware contract of
  \<open>sample_db_aware\<close> is active and due on 2024-01-05, inside the seven-day window of
  2024-01-01T09:00:00, but its due date carries a UTC offset: the comparison with the naive
  \<^verbatim>\<open>datetime.utcnow() + timedelta(days=7)\<close> raises TypeError, the job logs it,
  and no contract is flagged and no notification written. With naive due dates
  (\<open>sample_db\<close>) both contracts are flagged.
\<close>

theorem check_upcoming_maintenance_aware_schedule:
  "map (\<lambda>c. (status c, next_pms_schedule c)) (hardware_contracts sample_db_aware)
     = [(''active'', Some ''2024-01-05T00:00:00+00:00'')]
   \<and> fromisoformat_core (replace_Z ''2024-01-05T00:00:00+00:00'')
     = Some \<lparr>wall = 63840009600000000, utcoffset = Some 0\<rparr>
   \<and> upcoming_contracts fromisoformat_core 63839696400000000 sample_db_aware = Inl TypeError
   \<and> check_upcoming_maintenance fromisoformat_core 63839696400000000 sample_db_aware = sample_db_aware
   \<and> notifications (check_upcoming_maintenance fromisoformat_core 63839696400000000 sample_db_aware) = []
   \<and> upcoming_contracts fromisoformat_core 63839696400000000 sample_db
     = Inr [(sample_hardware, ''hardware''), (sample_label, ''label'')]"
proof -
  have p1: "fromisoformat_core (replace_Z ''2024-01-05T00:00:00+00:00'')
      = Some \<lparr>wall = 63840009600000000, utcoffset = Some 0\<rparr>"
    by code_simp
  have p2: "fromisoformat_core (replace_Z ''2024-01-01T00:00:00'')
      = Some \<lparr>wall = 63839664000000000, utcoffset = None\<rparr>"
    by code_simp
  have p3: "fromisoformat_core (replace_Z ''2024-01-01'')
      = Some \<lparr>wall = 63839664000000000, utcoffset = None\<rparr>"
    by code_simp
  have all_a: "all_contracts sample_db_aware
      = [(sample_hardware\<lparr>next_pms_schedule := Some ''2024-01-05T00:00:00+00:00''\<rparr>, ''hardware''),
         (sample_label, ''label'')]"
    by (simp add: all_contracts_def select_not_expired_def sample_db_aware_def sample_db_def
          sample_hardware_def sample_label_def)
  have all_n: "all_contracts sample_db = [(sample_hardware, ''hardware''), (sample_label, ''label'')]"
    by (simp add: all_contracts_def select_not_expired_def sample_db_def
          sample_hardware_def sample_label_def)
  have sh: "next_pms_schedule sample_hardware = Some ''2024-01-01T00:00:00''"
    and sl: "next_pms_schedule sample_label = Some ''2024-01-01''"
    by (simp_all add: sample_hardware_def sample_label_def)
  have a: "upcoming_contracts fromisoformat_core 63839696400000000 sample_db_aware = Inl TypeError"
    by (simp add: upcoming_contracts_def sample_clock_window all_a p1 dt_le_def)
  have n: "upcoming_contracts fromisoformat_core 63839696400000000 sample_db
      = Inr [(sample_hardware, ''hardware''), (sample_label, ''label'')]"
    by (simp add: upcoming_contracts_def sample_clock_window all_n sh sl p2 p3 dt_le_def)
  have c: "check_upcoming_maintenance fromisoformat_core 63839696400000000 sample_db_aware
      = sample_db_aware"
    by (simp add: check_upcoming_maintenance_def a)
  have e: "notifications sample_db_aware = []"
    by (simp add: sample_db_aware_def sample_db_def)
  have h: "map (\<lambda>c. (status c, next_pms_schedule c)) (hardware_contracts sample_db_aware)
     = [(''active'', Some ''2024-01-05T00:00:00+00:00'')]"
    by (simp add: sample_db_aware_def sample_hardware_def)
  from h p1 a c e n show ?thesis by (simp only: simp_thms)
qed

section \<open>Sequence numbers as text\<close>

lemma digit_val_digit_char: "n < 10 \<Longrightarrow> digit_val (digit_char n) = Some (int n)"
proof -
  assume "n < 10"
  then have "n \<in> {0, 1, 2, 3, 4, 5, 6, 7, 8, 9}" by auto
  then show ?thesis
    by (elim insertE emptyE) (simp_all add: digit_char_def digit_val_def)
qed

lemma digit_char_plain: "n < 10 \<Longrightarrow> \<not> is_space (digit_char n) \<and> digit_char n \<noteq> CHR ''_''
    \<and> digit_char n \<noteq> CHR ''-'' \<and> digit_char n \<noteq> CHR ''+''"
proof -
  assume "n < 10"
  then have "n \<in> {0, 1, 2, 3, 4, 5, 6, 7, 8, 9}" by auto
  then show ?thesis
    by (elim insertE emptyE) (simp_all add: digit_char_def is_space_def)
qed

lemma plain_digit_char: "n < 10 \<Longrightarrow> plain_digit (digit_char n)"
  by (simp add: plain_digit_def digit_val_digit_char digit_char_plain)

lemma str_nat_nonempty: "str_nat n \<noteq> []"
  by (subst str_nat.simps) simp

lemma str_nat_plain: "c \<in> set (str_nat n) \<Longrightarrow> plain_digit c"
proof (induction n arbitrary: c rule: str_nat.induct)
  case (1 n)
  show ?case
  proof (cases "n < 10")
    case True
    with "1.prems" show ?thesis
      by (subst (asm) str_nat.simps) (simp add: plain_digit_char)
  next
    case False
    with "1.prems" have "c \<in> set (str_nat (n div 10)) \<or> c = digit_char (n mod 10)"
      by (subst (asm) str_nat.simps) auto
    with False "1.IH" show ?thesis by (auto simp: plain_digit_char)
  qed
qed

lemma fold_str_nat:
  "fold digit_step (str_nat n) (Some a) = Some (a * 10 ^ length (str_nat n) + int n)"
proof (induction n arbitrary: a rule: str_nat.induct)
  case (1 n)
  show ?case
  proof (cases "n < 10")
    case True
    then show ?thesis
      by (subst (1 2) str_nat.simps) (simp add: digit_val_digit_char digit_step_def)
  next
    case False
    have m: "n mod 10 < 10" by simp
    have "fold digit_step (str_nat n) (Some a)
        = digit_step (digit_char (n mod 10)) (fold digit_step (str_nat (n div 10)) (Some a))"
      using False by (subst str_nat.simps) simp
    also have "\<dots> = Some ((a * 10 ^ length (str_nat (n div 10)) + int (n div 10)) * 10 + int (n mod 10))"
      unfolding "1.IH" [OF False] by (simp add: digit_val_digit_char [OF m] digit_step_def)
    also have "(a * 10 ^ length (str_nat (n div 10)) + int (n div 10)) * 10 + int (n mod 10)
        = a * 10 ^ length (str_nat n) + int n"
    proof -
      have "length (str_nat n) = Suc (length (str_nat (n div 10)))"
        using False by (subst str_nat.simps) simp
      moreover have "int (n div 10) * 10 + int (n mod 10) = int n"
        by (simp add: zdiv_int zmod_int)
      ultimately show ?thesis by (simp add: algebra_simps)
    qed
    finally show ?thesis .
  qed
qed

lemma digits_val_str_nat: "digits_val (str_nat n) = Some (int n)"
proof -
  obtain c cs where s: "str_nat n = c # cs"
    using str_nat_nonempty [of n] by (cases "str_nat n") auto
  have "digits_val (c # cs) = fold digit_step (c # cs) (Some 0)"
    by (simp add: digit_step_def)
  then show ?thesis
    using fold_str_nat [of n 0] by (simp add: s)
qed

lemma grouped_plain: "s \<noteq> [] \<Longrightarrow> \<forall>c \<in> set s. plain_digit c \<Longrightarrow> grouped s"
proof (induction s rule: grouped.induct)
  case 1
  then show ?case by simp
next
  case (2 c)
  then show ?case by (simp add: plain_digit_def)
next
  case (3 c d cs)
  then show ?case by (simp add: plain_digit_def)
qed

lemma py_strip_plain:
  assumes "s \<noteq> []" "\<not> is_space (hd s)" "\<not> is_space (last s)"
  shows "py_strip s = s"
proof -
  from assms have 1: "dropWhile is_space s = s" by (cases s) simp_all
  from assms have "rev s \<noteq> []" "\<not> is_space (hd (rev s))" by (simp_all add: hd_rev)
  then have "dropWhile is_space (rev s) = rev s" by (cases "rev s") simp_all
  with 1 show ?thesis by (simp add: py_strip_def)
qed

lemma py_int_py_str: "py_int (py_str i) = Some i"
proof (cases "i < 0")
  case False
  let ?s = "str_nat (nat i)"
  have ne: "?s \<noteq> []" by (rule str_nat_nonempty)
  have pl: "\<forall>c \<in> set ?s. plain_digit c" using str_nat_plain by blast
  from ne pl have h: "plain_digit (hd ?s)" and l: "plain_digit (last ?s)" by simp_all
  have strip: "py_strip ?s = ?s"
    using ne h l by (intro py_strip_plain) (simp_all add: plain_digit_def)
  have filt: "filter (\<lambda>c. c \<noteq> CHR ''_'') ?s = ?s"
    using pl by (simp add: plain_digit_def)
  from h have sign: "hd ?s \<noteq> CHR ''-''" "hd ?s \<noteq> CHR ''+''" by (simp_all add: plain_digit_def)
  show ?thesis
    using False ne sign grouped_plain [OF ne pl]
    by (simp add: py_int_def py_str_def strip filt digits_val_str_nat Let_def)
next
  case True
  let ?s = "str_nat (nat (- i))"
  have ne: "?s \<noteq> []" by (rule str_nat_nonempty)
  have pl: "\<forall>c \<in> set ?s. plain_digit c" using str_nat_plain by blast
  from ne pl have l: "plain_digit (last ?s)" by simp
  have strip: "py_strip (CHR ''-'' # ?s) = CHR ''-'' # ?s"
    using ne l by (intro py_strip_plain) (simp_all add: plain_digit_def is_space_def)
  have filt: "filter (\<lambda>c. c \<noteq> CHR ''_'') ?s = ?s"
    using pl by (simp add: plain_digit_def)
  show ?thesis
    using True grouped_plain [OF ne pl]
    by (simp add: py_int_def py_str_def strip filt digits_val_str_nat Let_def)
qed

lemma py_str_inj: "py_str i = py_str j \<Longrightarrow> i = j"
  by (metis py_int_py_str option.inject)

section \<open>Resequencing\<close>

lemma cid_numbered [simp]: "cid (numbered m r) = cid r"
  by (simp add: numbered_def split: option.splits)

lemma created_at_numbered [simp]: "created_at (numbered m r) = created_at r"
  by (simp add: numbered_def split: option.splits)

lemma resequence_loop_map:
  assumes "distinct (map (\<lambda>(idx, x). cid x) ups)"
  shows "resequence_loop ups t = map (numbered (map (\<lambda>(idx, x). (cid x, idx)) ups)) t"
  using assms
proof (induction ups arbitrary: t)
  case Nil
  show ?case by (simp add: numbered_def)
next
  case (Cons u ups)
  obtain idx x where u: "u = (idx, x)" by (cases u)
  let ?m = "map (\<lambda>(idx, x). (cid x, idx)) ups"
  from Cons.prems u have fresh: "cid x \<notin> fst ` set ?m" and d: "distinct (map (\<lambda>(idx, x). cid x) ups)"
    by (auto simp: image_iff)
  from fresh have none: "map_of ?m (cid x) = None" by (simp add: map_of_eq_None_iff)
  have "numbered ?m (if cid r = cid x then r\<lparr>sq := Some (py_str (int idx))\<rparr> else r)
      = numbered ((cid x, idx) # ?m) r" for r
    by (simp add: numbered_def none)
  then have "map (numbered ?m) (update_where_id (cid x) (\<lambda>r. r\<lparr>sq := Some (py_str (int idx))\<rparr>) t)
      = map (numbered ((cid x, idx) # ?m)) t"
    by (simp add: update_where_id_def)
  with Cons.IH [OF d] show ?case by (simp add: u)
qed

lemma insort_key_map_same:
  assumes "\<And>x. f (g x) = f x"
  shows "insort_key f (g x) (map g ys) = map g (insort_key f x ys)"
  by (induction ys) (simp_all add: assms)

lemma sort_key_map_same:
  assumes "\<And>x. f (g x) = f x"
  shows "sort_key f (map g xs) = map g (sort_key f xs)"
  using assms by (induction xs) (simp_all add: insort_key_map_same)

lemma enumerate_keys:
  "map (\<lambda>(idx, x). (cid x, idx)) (enumerate n rows) = zip (map cid rows) [n..<n + length rows]"
proof (induction rows arbitrary: n)
  case Nil
  show ?case by simp
next
  case (Cons a rows)
  have "n < n + length (a # rows)" by simp
  then have "[n..<n + length (a # rows)] = n # [Suc n..<n + length (a # rows)]"
    by (rule upt_conv_Cons)
  then have "[n..<n + length (a # rows)] = n # [Suc n..<Suc n + length rows]"
    by simp
  with Cons [of "Suc n"] show ?case by simp
qed

lemma enumerate_ids: "map (\<lambda>(idx, x). cid x) (enumerate n rows) = map cid rows"
  by (induction rows arbitrary: n) simp_all

lemma map_of_zip_all:
  assumes "distinct ks" and "length ks = length vs"
  shows "map (map_of (zip ks vs)) ks = map Some vs"
proof (rule nth_equalityI)
  show "length (map (map_of (zip ks vs)) ks) = length (map Some vs)"
    using assms by simp
next
  fix i assume "i < length (map (map_of (zip ks vs)) ks)"
  then have i: "i < length vs" using assms by simp
  from map_of_zip_nth [OF assms(2) assms(1) i] i assms
  show "map (map_of (zip ks vs)) ks ! i = map Some vs ! i" by simp
qed

lemma resequence_sq_created_order:
  assumes "distinct (map cid t)"
  shows "map sq (sort_key created_at (fst (resequence_sq t)))
           = map (\<lambda>k. Some (py_str (int k))) [1..<Suc (length t)]"
    and "fst (resequence_sq t)
           = map (numbered (zip (map cid (sort_key created_at t)) [1..<Suc (length t)])) t"
    and "snd (resequence_sq t) = length t"
proof -
  let ?rows = "sort_key created_at t"
  let ?m = "zip (map cid ?rows) [1..<Suc (length t)]"
  from assms have dr: "distinct (map cid ?rows)"
    by (simp add: distinct_map)
  have loop: "resequence_loop (enumerate 1 ?rows) t = map (numbered ?m) t"
    using resequence_loop_map [of "enumerate 1 ?rows" t] dr
    by (simp add: enumerate_ids enumerate_keys)
  then show t': "fst (resequence_sq t) = map (numbered ?m) t"
    by (simp add: resequence_sq_def Let_def)
  show "snd (resequence_sq t) = length t"
    by (simp add: resequence_sq_def Let_def)
  have "sort_key created_at (map (numbered ?m) t) = map (numbered ?m) ?rows"
    by (rule sort_key_map_same) simp
  then have "map sq (sort_key created_at (fst (resequence_sq t)))
      = map (\<lambda>r. sq (numbered ?m r)) ?rows"
    by (simp add: t' comp_def)
  also have "\<dots> = map (\<lambda>k. case map_of ?m k of None \<Rightarrow> None | Some idx \<Rightarrow> Some (py_str (int idx)))
                     (map cid ?rows)"
  proof -
    have "sq (numbered ?m r) = (case map_of ?m (cid r) of None \<Rightarrow> None
                                 | Some idx \<Rightarrow> Some (py_str (int idx)))"
      if "r \<in> set ?rows" for r
    proof -
      from that have "cid r \<in> set (map cid ?rows)" by simp
      moreover have "map fst ?m = map cid ?rows" by (rule map_fst_zip) (simp del: upt_Suc)
      ultimately have "cid r \<in> set (map fst ?m)" by simp
      then have "cid r \<in> fst ` set ?m" by (simp only: set_map)
      then obtain idx where "map_of ?m (cid r) = Some idx"
        by (metis map_of_eq_None_iff not_Some_eq)
      then show ?thesis by (simp add: numbered_def)
    qed
    then show ?thesis by (simp add: comp_def cong: map_cong)
  qed
  also have "\<dots> = map (\<lambda>v. case v of None \<Rightarrow> None | Some idx \<Rightarrow> Some (py_str (int idx)))
                     (map (map_of ?m) (map cid ?rows))"
    by (simp add: comp_def)
  also have "map (map_of ?m) (map cid ?rows) = map Some [1..<Suc (length t)]"
    using dr by (intro map_of_zip_all) (simp_all del: upt_Suc)
  finally show "map sq (sort_key created_at (fst (resequence_sq t)))
           = map (\<lambda>k. Some (py_str (int k))) [1..<Suc (length t)]"
    by (simp add: comp_def)
qed

lemma py_strip_idem: "py_strip (py_strip s) = py_strip s"
proof -
  define a where "a = dropWhile is_space s"
  define x where "x = dropWhile is_space (rev a)"
  have b: "py_strip s = rev x" by (simp add: py_strip_def a_def x_def)
  show ?thesis
  proof (cases "x = []")
    case True
    with b have e: "py_strip s = []" by simp
    have "py_strip [] = []" by (simp add: py_strip_def)
    then show ?thesis unfolding e .
  next
    case False
    then have hx: "\<not> is_space (hd x)" unfolding x_def by (rule hd_dropWhile)
    have "rev a = takeWhile is_space (rev a) @ x" by (simp add: x_def)
    then have "rev (rev a) = rev (takeWhile is_space (rev a) @ x)" by simp
    then have a: "a = rev x @ rev (takeWhile is_space (rev a))" by simp
    from False have "a \<noteq> []" using a by auto
    then have "\<not> is_space (hd a)" unfolding a_def by (rule hd_dropWhile)
    moreover from a False have "hd a = hd (rev x)" by (metis hd_append2 rev_is_Nil_conv)
    ultimately have h: "\<not> is_space (hd (rev x))" by simp
    from False hx have l: "\<not> is_space (last (rev x))" by (simp add: last_rev)
    from False have "rev x \<noteq> []" by simp
    from py_strip_plain [OF this h l] b show ?thesis by simp
  qed
qed

lemma py_int_py_strip: "py_int (py_strip s) = py_int s"
  by (simp add: py_int_def py_strip_idem)

lemma sq_number_numbered:
  "map_of m (cid r) = Some idx \<Longrightarrow> sq_number (numbered m r) = Some (int idx)"
  by (simp add: numbered_def sq_number_def py_int_py_str)

lemma resequence_sq_dense:
  assumes "distinct (map cid t)"
  shows "map cid (fst (resequence_sq t)) = map cid t"
    and "map sq_number (sort_key created_at (fst (resequence_sq t)))
           = map (\<lambda>k. Some (int k)) [1..<Suc (length t)]"
    and "set (map sq_number (fst (resequence_sq t))) = (\<lambda>k. Some (int k)) ` {1..length t}"
    and "distinct (map sq_number (fst (resequence_sq t)))"
    and "length (fst (resequence_sq t)) = length t"
proof -
  let ?t' = "fst (resequence_sq t)"
  note r = resequence_sq_created_order [OF assms]
  show "map cid ?t' = map cid t" by (simp add: r(2))
  show len: "length ?t' = length t" by (simp add: r(2))
  have "map sq_number (sort_key created_at ?t')
      = map (\<lambda>v. case v of None \<Rightarrow> None | Some s \<Rightarrow> py_int s) (map sq (sort_key created_at ?t'))"
    by (simp add: sq_number_def comp_def)
  also have "\<dots> = map (\<lambda>k. Some (int k)) [1..<Suc (length t)]"
    unfolding r(1) by (simp add: comp_def py_int_py_str del: upt_Suc)
  finally show ord: "map sq_number (sort_key created_at ?t')
      = map (\<lambda>k. Some (int k)) [1..<Suc (length t)]" .
  have "set (map sq_number ?t') = set (map sq_number (sort_key created_at ?t'))"
    by (simp only: set_map set_sort)
  also have "\<dots> = (\<lambda>k. Some (int k)) ` set [1..<Suc (length t)]"
    unfolding ord by (simp only: set_map)
  also have "set [1..<Suc (length t)] = {1..length t}" by auto
  finally show "set (map sq_number ?t') = (\<lambda>k. Some (int k)) ` {1..length t}" .
  have "distinct (map sq_number ?t') = distinct (map sq_number (sort_key created_at ?t'))"
    by (simp add: distinct_map)
  moreover have "distinct (map (\<lambda>k. Some (int k)) [1..<Suc (length t)])"
    by (simp add: distinct_map inj_on_def del: upt_Suc)
  ultimately show "distinct (map sq_number ?t')"
    using ord by simp
qed

text \<open>
  C9. With unique contract ids, resequencing a class numbers its contracts 1, 2, ..., N
  in the order of their creation time, whatever their SQs were before: afterwards the
  numeric SQs of the class are distinct, their set is exactly {1..N} with N the number of
  contracts of the class, and the operation reports N rows updated. The rows keep their
  ids and the other table is untouched.
\<close>

theorem resequence_sq_dense_numbers:
  "(distinct (map cid (hardware_contracts d)) \<longrightarrow>
      snd (resequence_hardware_sq d) = length (hardware_contracts d)
    \<and> label_contracts (fst (resequence_hardware_sq d)) = label_contracts d
    \<and> map cid (hardware_contracts (fst (resequence_hardware_sq d))) = map cid (hardware_contracts d)
    \<and> map sq_number (sort_key created_at (hardware_contracts (fst (resequence_hardware_sq d))))
        = map (\<lambda>k. Some (int k)) [1..<Suc (length (hardware_contracts d))]
    \<and> set (map sq_number (hardware_contracts (fst (resequence_hardware_sq d))))
        = (\<lambda>k. Some (int k)) ` {1..length (hardware_contracts d)}
    \<and> distinct (map sq_number (hardware_contracts (fst (resequence_hardware_sq d)))))
   \<and> (distinct (map cid (label_contracts d)) \<longrightarrow>
      snd (resequence_label_sq d) = length (label_contracts d)
    \<and> hardware_contracts (fst (resequence_label_sq d)) = hardware_contracts d
    \<and> map cid (label_contracts (fst (resequence_label_sq d))) = map cid (label_contracts d)
    \<and> map sq_number (sort_key created_at (label_contracts (fst (resequence_label_sq d))))
        = map (\<lambda>k. Some (int k)) [1..<Suc (length (label_contracts d))]
    \<and> set (map sq_number (label_contracts (fst (resequence_label_sq d))))
        = (\<lambda>k. Some (int k)) ` {1..length (label_contracts d)}
    \<and> distinct (map sq_number (label_contracts (fst (resequence_label_sq d)))))"
proof (intro conjI impI)
  assume h: "distinct (map cid (hardware_contracts d))"
  have t: "hardware_contracts (fst (resequence_hardware_sq d)) = fst (resequence_sq (hardware_contracts d))"
    by (simp add: resequence_hardware_sq_def Let_def)
  note r = resequence_sq_dense [OF h] resequence_sq_created_order(3) [OF h]
  show "snd (resequence_hardware_sq d) = length (hardware_contracts d)"
    by (simp add: resequence_hardware_sq_def Let_def r)
  show "label_contracts (fst (resequence_hardware_sq d)) = label_contracts d"
    by (simp add: resequence_hardware_sq_def Let_def)
  show "map cid (hardware_contracts (fst (resequence_hardware_sq d))) = map cid (hardware_contracts d)"
    unfolding t by (rule r)
  show "map sq_number (sort_key created_at (hardware_contracts (fst (resequence_hardware_sq d))))
        = map (\<lambda>k. Some (int k)) [1..<Suc (length (hardware_contracts d))]"
    unfolding t by (rule r)
  show "set (map sq_number (hardware_contracts (fst (resequence_hardware_sq d))))
        = (\<lambda>k. Some (int k)) ` {1..length (hardware_contracts d)}"
    unfolding t by (rule r)
  show "distinct (map sq_number (hardware_contracts (fst (resequence_hardware_sq d))))"
    unfolding t by (rule r)
next
  assume h: "distinct (map cid (label_contracts d))"
  have t: "label_contracts (fst (resequence_label_sq d)) = fst (resequence_sq (label_contracts d))"
    by (simp add: resequence_label_sq_def Let_def)
  note r = resequence_sq_dense [OF h] resequence_sq_created_order(3) [OF h]
  show "snd (resequence_label_sq d) = length (label_contracts d)"
    by (simp add: resequence_label_sq_def Let_def r)
  show "hardware_contracts (fst (resequence_label_sq d)) = hardware_contracts d"
    by (simp add: resequence_label_sq_def Let_def)
  show "map cid (label_contracts (fst (resequence_label_sq d))) = map cid (label_contracts d)"
    unfolding t by (rule r)
  show "map sq_number (sort_key created_at (label_contracts (fst (resequence_label_sq d))))
        = map (\<lambda>k. Some (int k)) [1..<Suc (length (label_contracts d))]"
    unfolding t by (rule r)
  show "set (map sq_number (label_contracts (fst (resequence_label_sq d))))
        = (\<lambda>k. Some (int k)) ` {1..length (label_contracts d)}"
    unfolding t by (rule r)
  show "distinct (map sq_number (label_contracts (fst (resequence_label_sq d))))"
    unfolding t by (rule r)
qed

theorem resequence_sq_dense_numbers_witness:
  "map sq_number sample_gapped = [Some 7, Some 2, Some 4]
   \<and> set (map sq_number (hardware_contracts (fst (resequence_hardware_sq
            (sample_db\<lparr>hardware_contracts := sample_gapped\<rparr>)))))
       = (\<lambda>k. Some (int k)) ` {1..3}
   \<and> distinct (map sq_number (hardware_contracts (fst (resequence_hardware_sq
            (sample_db\<lparr>hardware_contracts := sample_gapped\<rparr>)))))
   \<and> snd (resequence_hardware_sq (sample_db\<lparr>hardware_contracts := sample_gapped\<rparr>)) = 3
   \<and> set (map sq_number (label_contracts (fst (resequence_label_sq
            (sample_db\<lparr>hardware_contracts := sample_gapped\<rparr>)))))
       = (\<lambda>k. Some (int k)) ` {1..1}"
proof -
  let ?d = "sample_db\<lparr>hardware_contracts := sample_gapped\<rparr>"
  have dh: "distinct (map cid (hardware_contracts ?d))"
    by (simp add: sample_gapped_def)
  have dl: "distinct (map cid (label_contracts ?d))"
    by (simp add: sample_db_def)
  have lh: "length (hardware_contracts ?d) = 3" by (simp add: sample_gapped_def)
  have ll: "length (label_contracts ?d) = 1" by (simp add: sample_db_def)
  have nums: "map sq_number sample_gapped = [Some 7, Some 2, Some 4]"
    unfolding sample_gapped_def sq_number_def by code_simp
  from resequence_sq_dense_numbers [of ?d] dh dl lh ll nums show ?thesis
    by simp
qed

section \<open>Automatic sequence numbers\<close>

lemma sort_key_head:
  assumes "t \<noteq> []"
  shows "\<exists>x xs. sort_key f t = x # xs \<and> x \<in> set t \<and> (\<forall>r \<in> set t. f x \<le> f r)"
proof -
  from assms have "sort_key f t \<noteq> []" by (metis length_0_conv length_sort)
  then obtain x xs where s: "sort_key f t = x # xs" by (cases "sort_key f t") auto
  have "x \<in> set (sort_key f t)" by (simp add: s)
  then have x: "x \<in> set t" by (simp only: set_sort)
  have "sorted (map f (sort_key f t))" by (rule sorted_sort_key)
  then have "\<forall>y \<in> set xs. f x \<le> f y" by (simp add: s)
  moreover have "set t = insert x (set xs)"
    using set_sort [of f t] by (simp add: s)
  ultimately have "\<forall>r \<in> set t. f x \<le> f r" by auto
  with s x show ?thesis by blast
qed

lemma py_str_one: "py_str 1 = ''1''"
  by (simp add: py_str_def str_nat.simps digit_char_def)

lemma get_next_sq_empty: "get_next_sq [] = ''1''"
  by (simp add: get_next_sq_def)

lemma get_next_sq_newest:
  assumes "t \<noteq> []"
  shows "\<exists>x \<in> set t. (\<forall>r \<in> set t. created_at r \<le> created_at x)
           \<and> get_next_sq t = (case sq_number x of Some n \<Rightarrow> py_str (n + 1) | None \<Rightarrow> ''1'')"
proof -
  from sort_key_head [OF assms, of "\<lambda>r. - created_at r"] obtain x xs where
    s: "sort_key (\<lambda>r. - created_at r) t = x # xs" and x: "x \<in> set t"
    and m: "\<forall>r \<in> set t. - created_at x \<le> - created_at r" by blast
  have "py_int (py_strip (case sq x of None \<Rightarrow> [] | Some v \<Rightarrow> v)) = sq_number x"
  proof (cases "sq x")
    case None
    have "py_int [] = None" by (simp add: py_int_def py_strip_def)
    with None show ?thesis by (simp add: sq_number_def py_int_py_strip)
  next
    case (Some v)
    then show ?thesis by (simp add: sq_number_def py_int_py_strip)
  qed
  then have "get_next_sq t = (case sq_number x of Some n \<Rightarrow> py_str (n + 1) | None \<Rightarrow> ''1'')"
    by (simp add: get_next_sq_def s)
  moreover from m have "\<forall>r \<in> set t. created_at r \<le> created_at x" by simp
  ultimately show ?thesis using x by blast
qed

lemma get_next_sq_above:
  assumes "sq_follows_creation t"
  shows "\<exists>v. py_int (get_next_sq t) = Some v \<and> (\<forall>r \<in> set t. \<exists>n. sq_number r = Some n \<and> n < v)"
proof (cases "t = []")
  case True
  have "py_int (py_str 1) = Some 1" by (rule py_int_py_str)
  with True show ?thesis by (simp add: get_next_sq_empty py_str_one)
next
  case False
  from get_next_sq_newest [OF False] obtain x where x: "x \<in> set t"
    and newest: "\<forall>r \<in> set t. created_at r \<le> created_at x"
    and nx: "get_next_sq t = (case sq_number x of Some n \<Rightarrow> py_str (n + 1) | None \<Rightarrow> ''1'')"
    by blast
  from assms x obtain n where n: "sq_number x = Some n"
    unfolding sq_follows_creation_def by (metis order_refl)
  have below: "\<exists>k. sq_number r = Some k \<and> k < n + 1" if r: "r \<in> set t" for r
  proof -
    from newest r have "created_at r \<le> created_at x" by simp
    with assms r x obtain n1 n2 where "sq_number r = Some n1" "sq_number x = Some n2" "n1 \<le> n2"
      unfolding sq_follows_creation_def by blast
    with n show ?thesis by simp
  qed
  have "py_int (get_next_sq t) = Some (n + 1)"
    by (simp add: nx n py_int_py_str)
  with below show ?thesis by blast
qed

lemma create_contract_row:
  assumes "create_contract ct clock nid data t = Inr (row, t')"
  shows "t' = t @ [row]" and "created_at row = clock" and "cid row = nid"
    and "sq row = (if sq_blank (new_sq data) then Some (get_next_sq t) else new_sq data)"
  using assms
  by (auto simp: create_contract_def Let_def split: sum.splits option.splits)

lemma create_contract_auto_sq:
  assumes inv: "sq_follows_creation t" and blank: "sq_blank (new_sq data)"
    and later: "\<forall>r \<in> set t. created_at r < clock"
    and res: "create_contract ct clock nid data t = Inr (row, t')"
  shows "\<exists>v. sq_number row = Some v \<and> (\<forall>r \<in> set t. \<exists>n. sq_number r = Some n \<and> n < v)
           \<and> t' = t @ [row] \<and> sq_follows_creation t'"
proof -
  note c = create_contract_row [OF res]
  from c(4) blank have sqr: "sq_number row = py_int (get_next_sq t)"
    by (simp add: sq_number_def)
  from get_next_sq_above [OF inv] obtain v where v: "py_int (get_next_sq t) = Some v"
    and above: "\<forall>r \<in> set t. \<exists>n. sq_number r = Some n \<and> n < v" by blast
  have "sq_follows_creation (t @ [row])"
    unfolding sq_follows_creation_def
  proof (intro ballI impI)
    fix r1 r2 assume r1: "r1 \<in> set (t @ [row])" and r2: "r2 \<in> set (t @ [row])"
      and le: "created_at r1 \<le> created_at r2"
    show "\<exists>n1 n2. sq_number r1 = Some n1 \<and> sq_number r2 = Some n2 \<and> n1 \<le> n2"
    proof (cases "r2 = row")
      case True
      show ?thesis
      proof (cases "r1 = row")
        case True
        with \<open>r2 = row\<close> sqr v show ?thesis by simp
      next
        case False
        with r1 have "r1 \<in> set t" by simp
        with above obtain n where "sq_number r1 = Some n" "n < v" by blast
        with True sqr v show ?thesis by simp
      qed
    next
      case False
      with r2 have in2: "r2 \<in> set t" by simp
      show ?thesis
      proof (cases "r1 = row")
        case True
        with le c(2) have "clock \<le> created_at r2" by simp
        with later in2 show ?thesis by fastforce
      next
        case False
        with r1 have "r1 \<in> set t" by simp
        with inv in2 le show ?thesis unfolding sq_follows_creation_def by blast
      qed
    qed
  qed
  with sqr v above c(1) show ?thesis by simp
qed

lemma sq_follows_creation_empty: "sq_follows_creation []"
  by (simp add: sq_follows_creation_def)

lemma get_next_sq_strictly_newest:
  assumes x: "x \<in> set t" and newest: "\<forall>r \<in> set t. created_at r < created_at x \<or> r = x"
  shows "get_next_sq t = (case sq_number x of Some n \<Rightarrow> py_str (n + 1) | None \<Rightarrow> ''1'')"
proof -
  from x have "t \<noteq> []" by auto
  from get_next_sq_newest [OF this] obtain y where y: "y \<in> set t"
    and top: "\<forall>r \<in> set t. created_at r \<le> created_at y"
    and nx: "get_next_sq t = (case sq_number y of Some n \<Rightarrow> py_str (n + 1) | None \<Rightarrow> ''1'')"
    by blast
  from top x have "created_at x \<le> created_at y" by simp
  moreover from newest y have "created_at y < created_at x \<or> y = x" by simp
  ultimately have "y = x" by auto
  with nx show ?thesis by simp
qed

lemma sq_number_next:
  "py_int (case v of Some n \<Rightarrow> py_str (n + 1) | None \<Rightarrow> ''1'')
     = Some (case v of Some n \<Rightarrow> n + 1 | None \<Rightarrow> 1)"
proof (cases v)
  case None
  have "py_int (py_str 1) = Some 1" by (rule py_int_py_str)
  with None show ?thesis by (simp add: py_str_one)
next
  case (Some n)
  then show ?thesis by (simp add: py_int_py_str)
qed

lemma create_contract_auto_number:
  assumes blank: "sq_blank (new_sq data)"
    and res: "create_contract ct clock nid data t = Inr (row, t')"
  shows "t' = t @ [row]"
    and "created_at row = clock"
    and "t = [] \<longrightarrow> sq_number row = Some 1"
    and "\<forall>x \<in> set t. (\<forall>r \<in> set t. created_at r < created_at x \<or> r = x) \<longrightarrow>
           sq_number row = Some (case sq_number x of Some n \<Rightarrow> n + 1 | None \<Rightarrow> 1)"
    and "sq_follows_creation t \<and> (\<forall>r \<in> set t. created_at r < clock) \<longrightarrow>
           (\<exists>v. sq_number row = Some v \<and> (\<forall>r \<in> set t. \<exists>n. sq_number r = Some n \<and> n < v))
           \<and> sq_follows_creation t'"
proof -
  note c = create_contract_row [OF res]
  show "t' = t @ [row]" by (rule c)
  show "created_at row = clock" by (rule c)
  from c(4) blank have sqr: "sq_number row = py_int (get_next_sq t)"
    by (simp add: sq_number_def)
  have "py_int (py_str 1) = Some 1" by (rule py_int_py_str)
  then show "t = [] \<longrightarrow> sq_number row = Some 1"
    by (simp add: sqr get_next_sq_empty py_str_one)
  show "\<forall>x \<in> set t. (\<forall>r \<in> set t. created_at r < created_at x \<or> r = x) \<longrightarrow>
           sq_number row = Some (case sq_number x of Some n \<Rightarrow> n + 1 | None \<Rightarrow> 1)"
  proof (intro ballI impI)
    fix x assume "x \<in> set t" and "\<forall>r \<in> set t. created_at r < created_at x \<or> r = x"
    then have "get_next_sq t = (case sq_number x of Some n \<Rightarrow> py_str (n + 1) | None \<Rightarrow> ''1'')"
      by (rule get_next_sq_strictly_newest)
    then show "sq_number row = Some (case sq_number x of Some n \<Rightarrow> n + 1 | None \<Rightarrow> 1)"
      by (simp add: sqr sq_number_next)
  qed
  show "sq_follows_creation t \<and> (\<forall>r \<in> set t. created_at r < clock) \<longrightarrow>
           (\<exists>v. sq_number row = Some v \<and> (\<forall>r \<in> set t. \<exists>n. sq_number r = Some n \<and> n < v))
           \<and> sq_follows_creation t'"
  proof
    assume h: "sq_follows_creation t \<and> (\<forall>r \<in> set t. created_at r < clock)"
    then have inv: "sq_follows_creation t" and later: "\<forall>r \<in> set t. created_at r < clock"
      by simp_all
    from create_contract_auto_sq [OF inv blank later res]
    show "(\<exists>v. sq_number row = Some v \<and> (\<forall>r \<in> set t. \<exists>n. sq_number r = Some n \<and> n < v))
           \<and> sq_follows_creation t'"
      by blast
  qed
qed

lemma create_hardware_contract_table:
  assumes "create_hardware_contract clock nid data d = (Inr row, d')"
  shows "\<exists>t'. create_contract ''hardware'' clock nid data (hardware_contracts d) = Inr (row, t')
           \<and> hardware_contracts d' = t' \<and> label_contracts d' = label_contracts d"
  using assms
  by (cases "create_contract ''hardware'' clock nid data (hardware_contracts d)")
     (auto simp: create_hardware_contract_def)

lemma create_label_contract_table:
  assumes "create_label_contract clock nid data d = (Inr row, d')"
  shows "\<exists>t'. create_contract ''label'' clock nid data (label_contracts d) = Inr (row, t')
           \<and> label_contracts d' = t' \<and> hardware_contracts d' = hardware_contracts d"
  using assms
  by (cases "create_contract ''label'' clock nid data (label_contracts d)")
     (auto simp: create_label_contract_def)

text \<open>
  C10 (as amended). When the caller leaves the SQ blank, the new contract is appended
  with the SQ of the most recently created contract of its class plus one, or 1 when the
  class is empty or that SQ is not a number. When the SQs of the class are numbers that
  do not decrease with the creation time and the new contract is created after all of
  them, the new number is strictly greater than every SQ of the class, and the class with
  the new contract has that property again; the empty class has it.
\<close>

theorem auto_sq_follows_newest:
  "(sq_blank (new_sq data) \<and> create_hardware_contract clock nid data d = (Inr row, d') \<longrightarrow>
      hardware_contracts d' = hardware_contracts d @ [row]
    \<and> (hardware_contracts d = [] \<longrightarrow> sq_number row = Some 1)
    \<and> (\<forall>x \<in> set (hardware_contracts d).
          (\<forall>r \<in> set (hardware_contracts d). created_at r < created_at x \<or> r = x) \<longrightarrow>
          sq_number row = Some (case sq_number x of Some n \<Rightarrow> n + 1 | None \<Rightarrow> 1))
    \<and> (sq_follows_creation (hardware_contracts d)
        \<and> (\<forall>r \<in> set (hardware_contracts d). created_at r < clock) \<longrightarrow>
          (\<exists>v. sq_number row = Some v
             \<and> (\<forall>r \<in> set (hardware_contracts d). \<exists>n. sq_number r = Some n \<and> n < v))
          \<and> sq_follows_creation (hardware_contracts d')))
   \<and> (sq_blank (new_sq data) \<and> create_label_contract clock nid data d = (Inr row, d') \<longrightarrow>
      label_contracts d' = label_contracts d @ [row]
    \<and> (label_contracts d = [] \<longrightarrow> sq_number row = Some 1)
    \<and> (\<forall>x \<in> set (label_contracts d).
          (\<forall>r \<in> set (label_contracts d). created_at r < created_at x \<or> r = x) \<longrightarrow>
          sq_number row = Some (case sq_number x of Some n \<Rightarrow> n + 1 | None \<Rightarrow> 1))
    \<and> (sq_follows_creation (label_contracts d)
        \<and> (\<forall>r \<in> set (label_contracts d). created_at r < clock) \<longrightarrow>
          (\<exists>v. sq_number row = Some v
             \<and> (\<forall>r \<in> set (label_contracts d). \<exists>n. sq_number r = Some n \<and> n < v))
          \<and> sq_follows_creation (label_contracts d')))
   \<and> sq_follows_creation []"
proof (intro conjI)
  show "sq_blank (new_sq data) \<and> create_hardware_contract clock nid data d = (Inr row, d') \<longrightarrow>
      hardware_contracts d' = hardware_contracts d @ [row]
    \<and> (hardware_contracts d = [] \<longrightarrow> sq_number row = Some 1)
    \<and> (\<forall>x \<in> set (hardware_contracts d).
          (\<forall>r \<in> set (hardware_contracts d). created_at r < created_at x \<or> r = x) \<longrightarrow>
          sq_number row = Some (case sq_number x of Some n \<Rightarrow> n + 1 | None \<Rightarrow> 1))
    \<and> (sq_follows_creation (hardware_contracts d)
        \<and> (\<forall>r \<in> set (hardware_contracts d). created_at r < clock) \<longrightarrow>
          (\<exists>v. sq_number row = Some v
             \<and> (\<forall>r \<in> set (hardware_contracts d). \<exists>n. sq_number r = Some n \<and> n < v))
          \<and> sq_follows_creation (hardware_contracts d'))"
  proof
    assume h: "sq_blank (new_sq data) \<and> create_hardware_contract clock nid data d = (Inr row, d')"
    then have blank: "sq_blank (new_sq data)" by simp
    from h create_hardware_contract_table obtain t' where
      res: "create_contract ''hardware'' clock nid data (hardware_contracts d) = Inr (row, t')"
      and t': "hardware_contracts d' = t'" by blast
    note a = create_contract_auto_number [OF blank res]
    from a(1) a(3) a(4) a(5) show "hardware_contracts d' = hardware_contracts d @ [row]
      \<and> (hardware_contracts d = [] \<longrightarrow> sq_number row = Some 1)
      \<and> (\<forall>x \<in> set (hardware_contracts d).
            (\<forall>r \<in> set (hardware_contracts d). created_at r < created_at x \<or> r = x) \<longrightarrow>
            sq_number row = Some (case sq_number x of Some n \<Rightarrow> n + 1 | None \<Rightarrow> 1))
      \<and> (sq_follows_creation (hardware_contracts d)
          \<and> (\<forall>r \<in> set (hardware_contracts d). created_at r < clock) \<longrightarrow>
            (\<exists>v. sq_number row = Some v
               \<and> (\<forall>r \<in> set (hardware_contracts d). \<exists>n. sq_number r = Some n \<and> n < v))
            \<and> sq_follows_creation (hardware_contracts d'))"
      unfolding t' by (intro conjI)
  qed
next
  show "sq_blank (new_sq data) \<and> create_label_contract clock nid data d = (Inr row, d') \<longrightarrow>
      label_contracts d' = label_contracts d @ [row]
    \<and> (label_contracts d = [] \<longrightarrow> sq_number row = Some 1)
    \<and> (\<forall>x \<in> set (label_contracts d).
          (\<forall>r \<in> set (label_contracts d). created_at r < created_at x \<or> r = x) \<longrightarrow>
          sq_number row = Some (case sq_number x of Some n \<Rightarrow> n + 1 | None \<Rightarrow> 1))
    \<and> (sq_follows_creation (label_contracts d)
        \<and> (\<forall>r \<in> set (label_contracts d). created_at r < clock) \<longrightarrow>
          (\<exists>v. sq_number row = Some v
             \<and> (\<forall>r \<in> set (label_contracts d). \<exists>n. sq_number r = Some n \<and> n < v))
          \<and> sq_follows_creation (label_contracts d'))"
  proof
    assume h: "sq_blank (new_sq data) \<and> create_label_contract clock nid data d = (Inr row, d')"
    then have blank: "sq_blank (new_sq data)" by simp
    from h create_label_contract_table obtain t' where
      res: "create_contract ''label'' clock nid data (label_contracts d) = Inr (row, t')"
      and t': "label_contracts d' = t'" by blast
    note a = create_contract_auto_number [OF blank res]
    from a(1) a(3) a(4) a(5) show "label_contracts d' = label_contracts d @ [row]
      \<and> (label_contracts d = [] \<longrightarrow> sq_number row = Some 1)
      \<and> (\<forall>x \<in> set (label_contracts d).
            (\<forall>r \<in> set (label_contracts d). created_at r < created_at x \<or> r = x) \<longrightarrow>
            sq_number row = Some (case sq_number x of Some n \<Rightarrow> n + 1 | None \<Rightarrow> 1))
      \<and> (sq_follows_creation (label_contracts d)
          \<and> (\<forall>r \<in> set (label_contracts d). created_at r < clock) \<longrightarrow>
            (\<exists>v. sq_number row = Some v
               \<and> (\<forall>r \<in> set (label_contracts d). \<exists>n. sq_number r = Some n \<and> n < v))
            \<and> sq_follows_creation (label_contracts d'))"
      unfolding t' by (intro conjI)
  qed
next
  show "sq_follows_creation []" by (rule sq_follows_creation_empty)
qed

lemma sample_request_created:
  "\<exists>row t'. create_contract ct 63840009600000000 nid sample_request t = Inr (row, t')"
  by (simp add: create_contract_def Let_def sample_request_def
        calculate_next_pms_from_contract_date_def dt_add_def timedelta_days_def DAY_def MAXWALL_def)

lemma sample_request_blank: "sq_blank (new_sq sample_request)"
  by (simp add: sample_request_def sq_blank_def)

lemma sample_hardware_created:
  "\<exists>row t'. create_hardware_contract 63840009600000000 nid sample_request d
              = (Inr row, d\<lparr>hardware_contracts := t'\<rparr>)
           \<and> create_contract ''hardware'' 63840009600000000 nid sample_request (hardware_contracts d)
              = Inr (row, t')"
proof -
  from sample_request_created [of "''hardware''" nid "hardware_contracts d"] obtain row t' where
    c: "create_contract ''hardware'' 63840009600000000 nid sample_request (hardware_contracts d)
          = Inr (row, t')" by blast
  then have "create_hardware_contract 63840009600000000 nid sample_request d
      = (Inr row, d\<lparr>hardware_contracts := t'\<rparr>)"
    by (simp add: create_hardware_contract_def)
  with c show ?thesis by blast
qed

lemma sample_label_created:
  "\<exists>row t'. create_label_contract 63840009600000000 nid sample_request d
              = (Inr row, d\<lparr>label_contracts := t'\<rparr>)
           \<and> create_contract ''label'' 63840009600000000 nid sample_request (label_contracts d)
              = Inr (row, t')"
proof -
  from sample_request_created [of "''label''" nid "label_contracts d"] obtain row t' where
    c: "create_contract ''label'' 63840009600000000 nid sample_request (label_contracts d)
          = Inr (row, t')" by blast
  then have "create_label_contract 63840009600000000 nid sample_request d
      = (Inr row, d\<lparr>label_contracts := t'\<rparr>)"
    by (simp add: create_label_contract_def)
  with c show ?thesis by blast
qed

lemma sample_numbers:
  "py_int ''7'' = Some 7" "py_int ''2'' = Some 2" "py_int ''4'' = Some 4"
  "py_int ''5'' = Some 5" "py_int ''1'' = Some 1" "py_int ''3'' = Some 3"
  by code_simp+

theorem auto_sq_follows_newest_witness:
  "map sq_number sample_gapped = [Some 7, Some 2, Some 4]
   \<and> map_sum id sq_number
        (fst (create_hardware_contract 63840009600000000 ''c-new'' sample_request
                (sample_db\<lparr>hardware_contracts := sample_gapped\<rparr>))) = Inr (Some 8)
   \<and> map_sum id sq_number
        (fst (create_label_contract 63840009600000000 ''c-new'' sample_request sample_db))
      = Inr (Some 2)
   \<and> map_sum id sq_number
        (fst (create_label_contract 63840009600000000 ''c-new'' sample_request
                (sample_db\<lparr>label_contracts := []\<rparr>))) = Inr (Some 1)"
proof -
  let ?d = "sample_db\<lparr>hardware_contracts := sample_gapped\<rparr>"
  let ?e = "sample_db\<lparr>label_contracts := []\<rparr>"
  let ?x = "sample_hardware\<lparr>cid := ''c-7'', sq := Some ''7'', created_at := 63831888000000003\<rparr>"
  have nums: "map sq_number sample_gapped = [Some 7, Some 2, Some 4]"
    by (simp add: sample_gapped_def sq_number_def sample_numbers)
  have inv: "sq_follows_creation (hardware_contracts ?d)"
    by (simp add: sq_follows_creation_def sample_gapped_def sq_number_def sample_numbers)
  have later: "\<forall>r \<in> set (hardware_contracts ?d). created_at r < 63840009600000000"
    by (simp add: sample_gapped_def)
  have x: "?x \<in> set (hardware_contracts ?d)"
    and newest: "\<forall>r \<in> set (hardware_contracts ?d). created_at r < created_at ?x \<or> r = ?x"
    and sx: "sq_number ?x = Some 7"
    by (simp_all add: sample_gapped_def sq_number_def sample_numbers)
  from sample_hardware_created [of "''c-new''" ?d] obtain row t' where
    h: "create_hardware_contract 63840009600000000 ''c-new'' sample_request ?d
          = (Inr row, ?d\<lparr>hardware_contracts := t'\<rparr>)" by blast
  from auto_sq_follows_newest [where data = sample_request and clock = 63840009600000000
      and nid = "''c-new''" and d = ?d and row = row and d' = "?d\<lparr>hardware_contracts := t'\<rparr>"]
    sample_request_blank h
  have newest_rule: "\<forall>x \<in> set (hardware_contracts ?d).
          (\<forall>r \<in> set (hardware_contracts ?d). created_at r < created_at x \<or> r = x) \<longrightarrow>
          sq_number row = Some (case sq_number x of Some n \<Rightarrow> n + 1 | None \<Rightarrow> 1)"
    and above: "sq_follows_creation (hardware_contracts ?d)
        \<and> (\<forall>r \<in> set (hardware_contracts ?d). created_at r < 63840009600000000) \<longrightarrow>
          (\<exists>v. sq_number row = Some v
             \<and> (\<forall>r \<in> set (hardware_contracts ?d). \<exists>n. sq_number r = Some n \<and> n < v))
          \<and> sq_follows_creation (hardware_contracts (?d\<lparr>hardware_contracts := t'\<rparr>))"
    by blast+
  from above inv later have "\<exists>v. sq_number row = Some v
      \<and> (\<forall>r \<in> set (hardware_contracts ?d). \<exists>n. sq_number r = Some n \<and> n < v)" by blast
  from bspec [OF newest_rule x] newest sx have "sq_number row = Some 8" by simp
  with h have 1: "map_sum id sq_number
        (fst (create_hardware_contract 63840009600000000 ''c-new'' sample_request ?d)) = Inr (Some 8)"
    by simp
  let ?l = "sample_label"
  have xl: "?l \<in> set (label_contracts sample_db)"
    and newl: "\<forall>r \<in> set (label_contracts sample_db). created_at r < created_at ?l \<or> r = ?l"
    by (simp_all add: sample_db_def)
  have sl: "sq_number ?l = Some 1"
    by (simp add: sample_label_def sq_number_def sample_numbers)
  from sample_label_created [of "''c-new''" sample_db] obtain row2 t2 where
    l: "create_label_contract 63840009600000000 ''c-new'' sample_request sample_db
          = (Inr row2, sample_db\<lparr>label_contracts := t2\<rparr>)" by blast
  from auto_sq_follows_newest [where data = sample_request and clock = 63840009600000000
      and nid = "''c-new''" and d = sample_db and row = row2
      and d' = "sample_db\<lparr>label_contracts := t2\<rparr>"]
    sample_request_blank l
  have "\<forall>x \<in> set (label_contracts sample_db).
          (\<forall>r \<in> set (label_contracts sample_db). created_at r < created_at x \<or> r = x) \<longrightarrow>
          sq_number row2 = Some (case sq_number x of Some n \<Rightarrow> n + 1 | None \<Rightarrow> 1)"
    by blast
  from bspec [OF this xl] newl sl have "sq_number row2 = Some 2" by simp
  with l have 2: "map_sum id sq_number
        (fst (create_label_contract 63840009600000000 ''c-new'' sample_request sample_db))
      = Inr (Some 2)"
    by simp
  from sample_label_created [of "''c-new''" ?e] obtain row3 t3 where
    e: "create_label_contract 63840009600000000 ''c-new'' sample_request ?e
          = (Inr row3, ?e\<lparr>label_contracts := t3\<rparr>)" by blast
  from auto_sq_follows_newest [where data = sample_request and clock = 63840009600000000
      and nid = "''c-new''" and d = ?e and row = row3 and d' = "?e\<lparr>label_contracts := t3\<rparr>"]
    sample_request_blank e
  have "label_contracts ?e = [] \<longrightarrow> sq_number row3 = Some 1"
    by blast
  then have "sq_number row3 = Some 1" by simp
  with e have 3: "map_sum id sq_number
        (fst (create_label_contract 63840009600000000 ''c-new'' sample_request ?e)) = Inr (Some 1)"
    by simp
  from nums 1 2 3 show ?thesis by (intro conjI)
qed

text \<open>
  The new number is not greater than every SQ already present in general: in
  \<open>sample_manual\<close> the contract with SQ 5 is older than the contract with SQ 2, and the
  next contract with a blank SQ gets 3.
\<close>

theorem auto_sq_below_existing:
  "map sq_number sample_manual = [Some 5, Some 2]
   \<and> map created_at sample_manual = [63831888000000001, 63831888000000002]
   \<and> sq_blank (new_sq sample_request)
   \<and> map_sum id sq_number
        (fst (create_hardware_contract 63840009600000000 ''c-new'' sample_request
                (sample_db\<lparr>hardware_contracts := sample_manual\<rparr>))) = Inr (Some 3)"
proof -
  let ?d = "sample_db\<lparr>hardware_contracts := sample_manual\<rparr>"
  have nums: "map sq_number sample_manual = [Some 5, Some 2]"
    by (simp add: sample_manual_def sq_number_def sample_numbers)
  have times: "map created_at sample_manual = [63831888000000001, 63831888000000002]"
    by (simp add: sample_manual_def)
  have nx: "get_next_sq sample_manual = ''3''"
    unfolding sample_manual_def sample_hardware_def by code_simp
  from sample_hardware_created [of "''c-new''" ?d] obtain row t' where
    h: "create_hardware_contract 63840009600000000 ''c-new'' sample_request ?d
          = (Inr row, ?d\<lparr>hardware_contracts := t'\<rparr>)"
    and c: "create_contract ''hardware'' 63840009600000000 ''c-new'' sample_request
              (hardware_contracts ?d) = Inr (row, t')" by blast
  from create_contract_row(4) [OF c] sample_request_blank
  have "sq row = Some (get_next_sq sample_manual)" by simp
  then have "sq_number row = Some 3"
    by (simp add: sq_number_def nx sample_numbers)
  with h have "map_sum id sq_number
        (fst (create_hardware_contract 63840009600000000 ''c-new'' sample_request ?d)) = Inr (Some 3)"
    by simp
  with nums times sample_request_blank show ?thesis by (intro conjI)
qed

end
